theory Spec2Isabelle
  imports Complex_Main "HOL-Library.AList"
begin

section \<open>Python values, exceptions and text rendering\<close>

text \<open>
  The functions of \<^verbatim>\<open>synthetic_data_generator.py\<close> return integers, floats and
  strings (\<^verbatim>\<open>Any\<close>), and they raise. Values are a datatype, every raise is a value of
  \<open>error\<close>. The floats that occur are the quotients \<^verbatim>\<open>k / 50\<close> and the null probability;
  both are carried as rationals.
\<close>

datatype error =
    NotImplementedError string
  | ValueError
  | KeyError string
  | IndexError

datatype pyval = PyInt int | PyFloat rat | PyStr string

definition digit_char :: "nat \<Rightarrow> char" where
  "digit_char d = ''0123456789'' ! (d mod 10)"

fun str_nat :: "nat \<Rightarrow> string" where
  "str_nat n = (if n < 10 then [digit_char n] else str_nat (n div 10) @ [digit_char n])"

declare str_nat.simps [simp del]

definition str_int :: "int \<Rightarrow> string" where
  \<comment> \<open>\<^verbatim>\<open>str(i)\<close> of a Python int\<close>
  "str_int i = (if i < 0 then CHR ''-'' # str_nat (nat (- i)) else str_nat (nat i))"

definition fmt02 :: "int \<Rightarrow> string" where
  \<comment> \<open>the format specification \<^verbatim>\<open>:02\<close>: zero padding to width two\<close>
  "fmt02 i = (let s = str_int i in if length s < 2 then CHR ''0'' # s else s)"

definition str_float :: "rat \<Rightarrow> string" where
  \<comment> \<open>\<^verbatim>\<open>str(k / 50)\<close> for \<open>0 \<le> k\<close>: the shortest decimal that reads back as the same
      float, which for a multiple of \<open>1/50\<close> is its decimal expansion with one or two
      fractional digits\<close>
  "str_float q =
     (let h = \<lfloor>q * 100\<rfloor>; fr = h mod 100
      in str_int (h div 100) @ ''.'' @
         (if fr mod 10 = 0 then [digit_char (nat (fr div 10))] else fmt02 fr))"

fun py_str :: "pyval \<Rightarrow> string" where
  "py_str (PyInt i) = str_int i"
| "py_str (PyFloat q) = str_float q"
| "py_str (PyStr s) = s"

fun join :: "string \<Rightarrow> string list \<Rightarrow> string" where
  \<comment> \<open>\<^verbatim>\<open>sep.join(xs)\<close>\<close>
  "join sep [] = []"
| "join sep [x] = x"
| "join sep (x # y # ys) = x @ sep @ join sep (y # ys)"

definition lower_char :: "char \<Rightarrow> char" where
  "lower_char c =
     (case map_of (zip ''ABCDEFGHIJKLMNOPQRSTUVWXYZ'' ''abcdefghijklmnopqrstuvwxyz'') c of
        None \<Rightarrow> c | Some l \<Rightarrow> l)"

definition lower :: "string \<Rightarrow> string" where
  \<comment> \<open>\<^verbatim>\<open>str.lower()\<close> on ASCII text\<close>
  "lower s = map lower_char s"

section \<open>The source of randomness\<close>

text \<open>
  \<^verbatim>\<open>secrets\<close> and \<^verbatim>\<open>uuid.uuid4\<close> read the operating system's generator. The model makes
  the generator an explicit argument: an arbitrary sequence of raw natural numbers and the
  number of them already consumed. Each primitive takes the next raw number and reduces
  it into its range, so every outcome the primitive can have is the outcome for some
  sequence, and a statement for all sequences is a statement for all runs.
\<close>

type_synonym rng = "(nat \<Rightarrow> nat) \<times> nat"

type_synonym 'a gen = "rng \<Rightarrow> error + ('a \<times> rng)"

definition returnG :: "'a \<Rightarrow> 'a gen" where
  "returnG x g = Inr (x, g)"

definition raiseG :: "error \<Rightarrow> 'a gen" where
  "raiseG e g = Inl e"

definition bindG :: "'a gen \<Rightarrow> ('a \<Rightarrow> 'b gen) \<Rightarrow> 'b gen" where
  "bindG m f g = (case m g of Inl e \<Rightarrow> Inl e | Inr (x, g') \<Rightarrow> f x g')"

definition next_raw :: "rng \<Rightarrow> nat \<times> rng" where
  "next_raw g = (fst g (snd g), (fst g, Suc (snd g)))"

definition randbelow :: "int \<Rightarrow> int gen" where
  \<comment> \<open>\<^verbatim>\<open>secrets.randbelow(n)\<close>: an int in \<open>[0, n)\<close>; ValueError unless \<open>0 < n\<close>\<close>
  "randbelow n g =
     (if n \<le> 0 then Inl ValueError
      else (let (r, g') = next_raw g in Inr (int r mod n, g')))"

definition randbits :: "int \<Rightarrow> int gen" where
  \<comment> \<open>\<^verbatim>\<open>secrets.randbits(k)\<close>: an int with \<open>k\<close> random bits; ValueError when \<open>k < 0\<close>\<close>
  "randbits k g =
     (if k < 0 then Inl ValueError
      else (let (r, g') = next_raw g in Inr (int r mod 2 ^ nat k, g')))"

definition choice :: "string \<Rightarrow> char gen" where
  \<comment> \<open>\<^verbatim>\<open>secrets.choice(seq)\<close>: IndexError on an empty sequence\<close>
  "choice seq g =
     (if seq = [] then Inl IndexError
      else (let (r, g') = next_raw g in Inr (seq ! (r mod length seq), g')))"

definition uniform01 :: "rng \<Rightarrow> rat \<times> rng" where
  \<comment> \<open>\<^verbatim>\<open>secrets.SystemRandom().uniform(0, 1)\<close>, that is \<^verbatim>\<open>0 + (1 - 0) * random()\<close>, and
      \<^verbatim>\<open>random()\<close> is a 53-bit integer times \<open>2\<^sup>-\<^sup>5\<^sup>3\<close>\<close>
  "uniform01 g = (let (r, g') = next_raw g in (of_nat (r mod 2 ^ 53) / 2 ^ 53, g'))"

definition hex_char :: "nat \<Rightarrow> char" where
  "hex_char d = ''0123456789abcdef'' ! (d mod 16)"

primrec hex_digits :: "nat \<Rightarrow> nat \<Rightarrow> string" where
  \<comment> \<open>the last \<open>k\<close> hexadecimal digits of \<open>n\<close>, most significant first\<close>
  "hex_digits 0 n = []"
| "hex_digits (Suc k) n = hex_digits k (n div 16) @ [hex_char n]"

definition uuid4_str :: "rng \<Rightarrow> string \<times> rng" where
  \<comment> \<open>\<^verbatim>\<open>str(uuid.uuid4())\<close>: 128 random bits, the version nibble (hex digit 12) set to 4
      and the two variant bits (top of hex digit 16) set to binary 10, printed 8-4-4-4-12\<close>
  "uuid4_str g =
     (let (r, g') = next_raw g;
          h = hex_digits 32 r;
          h = h[12 := CHR ''4''];
          h = h[16 := hex_char (8 + (r div 16 ^ 15) mod 4)]
      in (take 8 h @ ''-'' @ take 4 (drop 8 h) @ ''-'' @ take 4 (drop 12 h) @ ''-'' @
          take 4 (drop 16 h) @ ''-'' @ drop 20 h, g'))"

section \<open>Configuration constants\<close>

definition alphabet :: string where
  \<comment> \<open>\<^verbatim>\<open>string.ascii_letters + string.digits\<close>\<close>
  "alphabet = ''abcdefghijklmnopqrstuvwxyzABCDEFGHIJKLMNOPQRSTUVWXYZ0123456789''"

section \<open>random_value\<close>

definition pad_string_by_apostrophes :: "string \<Rightarrow> string" where
  "pad_string_by_apostrophes input_string = CHR 0x27 # input_string @ [CHR 0x27]"

primrec random_chars :: "nat \<Rightarrow> string gen" where
  \<comment> \<open>\<^verbatim>\<open>"".join(secrets.choice(alphabet) for _ in range(str_size))\<close>\<close>
  "random_chars 0 = returnG []"
| "random_chars (Suc n) =
     bindG (choice alphabet) (\<lambda>c. bindG (random_chars n) (\<lambda>cs. returnG (c # cs)))"

definition random_date :: "string gen" where
  \<comment> \<open>the three fields shared by the \<^verbatim>\<open>date\<close> and \<^verbatim>\<open>datetime\<close> cases\<close>
  "random_date =
     bindG (randbelow 60) (\<lambda>y. bindG (randbelow 12) (\<lambda>m. bindG (randbelow 27) (\<lambda>d.
       returnG (str_int (1970 + y) @ ''-'' @ fmt02 (1 + m) @ ''-'' @ fmt02 (1 + d)))))"

definition random_time :: "string gen" where
  "random_time =
     bindG (randbelow 24) (\<lambda>h. bindG (randbelow 60) (\<lambda>m. bindG (randbelow 60) (\<lambda>s.
       returnG (fmt02 h @ '':'' @ fmt02 m @ '':'' @ fmt02 s))))"

definition supported_types :: "string set" where
  \<comment> \<open>the literals of the \<^verbatim>\<open>case\<close> patterns of \<^verbatim>\<open>random_value\<close>\<close>
  "supported_types =
     {''bit'', ''char'', ''varchar'', ''text'', ''nchar'', ''nvarchar'', ''ntext'',
      ''bigint'', ''numeric'', ''decimal'', ''int'', ''smallint'', ''tinyint'', ''float'',
      ''varbinary'', ''binary'', ''date'', ''datetime'', ''datetime2'', ''time'',
      ''timestamp'', ''uniqueidentifier''}"

definition random_value_match :: "string \<Rightarrow> int \<Rightarrow> int \<Rightarrow> int \<Rightarrow> pyval gen" where
  \<comment> \<open>the \<^verbatim>\<open>match data_type\<close> statement and the \<^verbatim>\<open>raise\<close> after it\<close>
  "random_value_match data_type str_size bin_size int_max =
     (if data_type = ''bit'' then
        bindG (randbits 1) (\<lambda>b. returnG (PyInt b))
      else if data_type \<in> {''char'', ''varchar'', ''text'', ''nchar'', ''nvarchar'', ''ntext''} then
        bindG (random_chars (nat str_size)) (\<lambda>s. returnG (PyStr (pad_string_by_apostrophes s)))
      else if data_type \<in> {''bigint'', ''numeric'', ''decimal'', ''int''} then
        bindG (randbelow int_max) (\<lambda>i. returnG (PyInt i))
      else if data_type = ''smallint'' then
        bindG (randbelow (min 32767 int_max)) (\<lambda>i. returnG (PyInt i))
      else if data_type = ''tinyint'' then
        bindG (randbelow (min 256 int_max)) (\<lambda>i. returnG (PyInt i))
      else if data_type = ''float'' then
        bindG (randbelow (min 256 int_max)) (\<lambda>i. returnG (PyFloat (of_int i / 50)))
      else if data_type \<in> {''varbinary'', ''binary''} then
        bindG (randbits bin_size) (\<lambda>b. returnG (PyStr
          (''CAST('' @ str_int b @ '' AS BINARY('' @ str_int bin_size @ ''))'')))
      else if data_type = ''date'' then
        bindG random_date (\<lambda>d. returnG (PyStr (pad_string_by_apostrophes d)))
      else if data_type \<in> {''datetime'', ''datetime2''} then
        bindG random_date (\<lambda>d. bindG random_time (\<lambda>t.
          returnG (PyStr (pad_string_by_apostrophes (d @ '' '' @ t)))))
      else if data_type = ''time'' then
        bindG random_time (\<lambda>t. returnG (PyStr (pad_string_by_apostrophes t)))
      else if data_type = ''timestamp'' then
        returnG (PyStr ''DEFAULT'')
      else if data_type = ''uniqueidentifier'' then
        (\<lambda>g. let (u, g') = uuid4_str g
             in Inr (PyStr (''CONVERT(uniqueidentifier, '' @ pad_string_by_apostrophes u @ '')''), g'))
      else raiseG (NotImplementedError data_type))"

definition random_value :: "string \<Rightarrow> int \<Rightarrow> int \<Rightarrow> int \<Rightarrow> rat option \<Rightarrow> pyval gen" where
  \<comment> \<open>\<^verbatim>\<open>if null_probability:\<close> is false for \<^verbatim>\<open>None\<close> and for \<^verbatim>\<open>0.0\<close>; only otherwise is
      the uniform number drawn\<close>
  "random_value data_type str_size bin_size int_max null_probability g =
     (case null_probability of
        None \<Rightarrow> random_value_match data_type str_size bin_size int_max g
      | Some p \<Rightarrow>
          if p \<noteq> 0 then
            (let (u, g') = uniform01 g
             in if u \<le> p then Inr (PyStr ''NULL'', g')
                else random_value_match data_type str_size bin_size int_max g')
          else random_value_match data_type str_size bin_size int_max g)"

section \<open>Table definitions\<close>

text \<open>
  A column definition is the inner dictionary with the keys \<^verbatim>\<open>data_type\<close>,
  \<^verbatim>\<open>is_nullable\<close> and \<^verbatim>\<open>max_length\<close>. Python dictionaries keep insertion order and the
  code relies on it, so a table definition is an association list from column names to
  column definitions, and the table definitions are an association list from table names.
\<close>

record column_def =
  data_type :: string
  is_nullable :: bool
  max_length :: "int option"

type_synonym table_def = "(string \<times> column_def) list"

type_synonym table_defs = "(string \<times> table_def) list"

definition is_space :: "char \<Rightarrow> bool" where
  \<comment> \<open>the characters \<^verbatim>\<open>int()\<close> skips around an ASCII literal: blank, tab, line feed,
      vertical tab, form feed and carriage return\<close>
  "is_space c = (c \<in> {CHR '' '', CHR 0x09, CHR 0x0A, CHR 0x0B, CHR 0x0C, CHR 0x0D})"

definition is_digit :: "char \<Rightarrow> bool" where
  "is_digit c = (c \<in> set ''0123456789'')"

fun digit_groups :: "string \<Rightarrow> bool" where
  \<comment> \<open>decimal digits, single underscores allowed between two digits\<close>
  "digit_groups [] = False"
| "digit_groups [c] = is_digit c"
| "digit_groups (c # d # cs) =
     (is_digit c \<and> (if d = CHR ''_'' then digit_groups cs else digit_groups (d # cs)))"

definition digits_value :: "string \<Rightarrow> int" where
  "digits_value ds = foldl (\<lambda>acc c. acc * 10 + (int (of_char c) - 48)) 0 ds"

definition py_int :: "string \<Rightarrow> error + int" where
  \<comment> \<open>\<^verbatim>\<open>int(s)\<close> on ASCII text: surrounding whitespace, an optional sign, decimal digits
      in groups joined by single underscores; ValueError for anything else, and for more
      than 4300 digits (the interpreter's default limit for the conversion, which counts
      the digits and neither the sign nor the underscores)\<close>
  "py_int s =
     (let t = rev (dropWhile is_space (rev (dropWhile is_space s)));
          (neg, u) = (case t of [] \<Rightarrow> (False, t)
                      | c # r \<Rightarrow> if c = CHR ''-'' then (True, r)
                                 else if c = CHR ''+'' then (False, r) else (False, t))
      in if digit_groups u
         then (let ds = filter (\<lambda>c. c \<noteq> CHR ''_'') u
               in if length ds > 4300 then Inl ValueError
                  else (let v = digits_value ds in Inr (if neg then - v else v)))
         else Inl ValueError)"

definition index :: "'a list \<Rightarrow> nat \<Rightarrow> error + 'a" where
  \<comment> \<open>\<^verbatim>\<open>xs[i]\<close> for \<open>0 \<le> i\<close>\<close>
  "index xs i = (if i < length xs then Inr (xs ! i) else Inl IndexError)"

definition bindE :: "error + 'a \<Rightarrow> ('a \<Rightarrow> error + 'b) \<Rightarrow> error + 'b" where
  "bindE m f = (case m of Inl e \<Rightarrow> Inl e | Inr x \<Rightarrow> f x)"

definition add_column :: "string \<Rightarrow> string \<Rightarrow> column_def \<Rightarrow> table_defs \<Rightarrow> table_defs" where
  \<comment> \<open>\<^verbatim>\<open>_table_defs[_full_tbl_name] |= {column: definition}\<close> on a
      \<^verbatim>\<open>defaultdict(dict)\<close>: a missing table is first created empty, at the end; the
      update replaces the value of a present key in place and appends a new key\<close>
  "add_column tbl col cd defs =
     (let t = (case map_of defs tbl of None \<Rightarrow> [] | Some t \<Rightarrow> t)
      in AList.update tbl (AList.update col cd t) defs)"

definition table_row ::
  "(string \<Rightarrow> string list) \<Rightarrow> nat \<Rightarrow> error + (string \<times> string \<times> column_def)" where
  \<comment> \<open>what one pass of the loop body reads from the parsed CSV, in the source's order:
      the full table name, the column name and the column's definition\<close>
  "table_row parsed_table_def_csv row_pos =
     bindE (index (parsed_table_def_csv ''TABLE_SCHEMA'') row_pos) (\<lambda>sch.
     bindE (index (parsed_table_def_csv ''TABLE_NAME'') row_pos) (\<lambda>tbl.
     bindE (index (parsed_table_def_csv ''CHARACTER_MAXIMUM_LENGTH'') row_pos) (\<lambda>ml.
     bindE (if ml = ''NULL'' then Inr None else bindE (py_int ml) (\<lambda>i. Inr (Some i))) (\<lambda>max_len.
     bindE (index (parsed_table_def_csv ''COLUMN_NAME'') row_pos) (\<lambda>col.
     bindE (index (parsed_table_def_csv ''DATA_TYPE'') row_pos) (\<lambda>dt.
     bindE (index (parsed_table_def_csv ''IS_NULLABLE'') row_pos) (\<lambda>nullable.
       Inr (sch @ ''.'' @ tbl, col,
            \<lparr>data_type = dt, is_nullable = (nullable = ''YES''), max_length = max_len\<rparr>))))))))"

primrec table_defs_loop ::
  "(string \<Rightarrow> string list) \<Rightarrow> nat list \<Rightarrow> table_defs \<Rightarrow> error + table_defs" where
  "table_defs_loop parsed_table_def_csv [] defs = Inr defs"
| "table_defs_loop parsed_table_def_csv (row_pos # rest) defs =
     bindE (table_row parsed_table_def_csv row_pos) (\<lambda>(tbl, col, cd).
       table_defs_loop parsed_table_def_csv rest (add_column tbl col cd defs))"

definition generate_table_definitions ::
  "int \<Rightarrow> (string \<Rightarrow> string list) \<Rightarrow> error + table_defs" where
  \<comment> \<open>\<^verbatim>\<open>for _row_pos in range(number_of_rows_in_csv)\<close>, starting from the empty dictionary\<close>
  "generate_table_definitions number_of_rows_in_csv parsed_table_def_csv =
     table_defs_loop parsed_table_def_csv [0..<nat number_of_rows_in_csv] []"

section \<open>create_statement\<close>

definition max_length_text :: "int option \<Rightarrow> string" where
  \<comment> \<open>\<^verbatim>\<open>_max_length\<close> after the sentinel test, as the f-string \<^verbatim>\<open>{_max_length}\<close> prints it:
      \<^verbatim>\<open>None\<close> stays \<^verbatim>\<open>None\<close>, a negative number has become the string \<^verbatim>\<open>max\<close>\<close>
  "max_length_text ml =
     (case ml of None \<Rightarrow> ''None''
      | Some n \<Rightarrow> if n < 0 then ''max'' else str_int n)"

definition data_type_def :: "column_def \<Rightarrow> string" where
  \<comment> \<open>the \<^verbatim>\<open>match _data_type_def := ...\<close> statement of \<^verbatim>\<open>create_statement\<close>\<close>
  "data_type_def cd =
     (let dt = data_type cd in
      if dt \<in> {''char'', ''varchar'', ''nchar'', ''nvarchar''} then
        dt @ ''('' @ max_length_text (max_length cd) @ '')''
      else if dt \<in> {''varbinary'', ''binary''} then
        dt @ ''('' @ max_length_text (max_length cd) @ '')''
      else if dt = ''bit'' then ''BIT''
      else dt)"

definition column_definition :: "string \<Rightarrow> column_def \<Rightarrow> string" where
  \<comment> \<open>one element of \<^verbatim>\<open>_column_definitions\<close>\<close>
  "column_definition column cd =
     ''['' @ column @ ''] '' @ data_type_def cd @ '' '' @
     (if \<not> is_nullable cd then ''NOT NULL'' else [])"

definition replace_char :: "char \<Rightarrow> char \<Rightarrow> string \<Rightarrow> string" where
  "replace_char a b s = map (\<lambda>c. if c = a then b else c) s"

definition create_statement :: "string \<Rightarrow> table_def \<Rightarrow> string list option \<Rightarrow> string" where
  "create_statement table_name table_def primary_keys =
     (let column_definitions = map (\<lambda>(column, cd). column_definition column cd) table_def;
          primary_key =
            (case primary_keys of None \<Rightarrow> []
             | Some pks \<Rightarrow>
                 if pks = [] then []
                 else '', CONSTRAINT [PK_'' @ replace_char CHR ''.'' CHR ''_'' table_name @
                      ''] PRIMARY KEY ('' @ join '','' pks @ '')'')
      in ''CREATE TABLE '' @ table_name @ '' ('' @ join '','' column_definitions @
         primary_key @ '')'')"

definition stream_create_statements ::
  "table_defs \<Rightarrow> (string \<Rightarrow> string list option option) \<Rightarrow> string list" where
  \<comment> \<open>the strings handed to \<^verbatim>\<open>output_stream\<close>, in order\<close>
  "stream_create_statements table_definitions primary_keys =
     map (\<lambda>(table_name, table_def).
            create_statement table_name table_def
              (case primary_keys table_name of None \<Rightarrow> None | Some pks \<Rightarrow> pks)
            @ [CHR '';'', CHR 0x0A])
         table_definitions"

section \<open>insert_statement\<close>

primrec insert_values ::
  "table_def \<Rightarrow> int \<Rightarrow> int \<Rightarrow> int \<Rightarrow> rat \<Rightarrow> (string \<times> string) list \<Rightarrow>
   (string \<times> string) list gen" where
  \<comment> \<open>the loop over \<^verbatim>\<open>table_def.items()\<close> filling the dictionary \<^verbatim>\<open>_values\<close>\<close>
  "insert_values [] str_max_size bin_max_size int_max NULL_PROBABILITY values = returnG values"
| "insert_values (item # rest) str_max_size bin_max_size int_max NULL_PROBABILITY values =
     (let col_name = fst item; col_def = snd item;
          bounded = (case max_length col_def of None \<Rightarrow> False | Some l \<Rightarrow> l \<ge> 0);
          str_size = (if bounded then min str_max_size (the (max_length col_def))
                      else str_max_size);
          bin_size = (if bounded then min bin_max_size (the (max_length col_def))
                      else bin_max_size)
      in bindG (random_value (data_type col_def) str_size bin_size int_max
                  (if is_nullable col_def then Some NULL_PROBABILITY else None))
           (\<lambda>v. insert_values rest str_max_size bin_max_size int_max NULL_PROBABILITY
                   (AList.update col_name (py_str v) values)))"

type_synonym row = "(string \<times> string) list \<times> string"

definition insert_statement ::
  "string \<Rightarrow> table_def \<Rightarrow> int \<Rightarrow> int \<Rightarrow> int \<Rightarrow> rat \<Rightarrow> row gen" where
  \<comment> \<open>\<^verbatim>\<open>NULL_PROBABILITY\<close> is the module's global, here the last parameter\<close>
  "insert_statement table_name table_def str_max_size bin_max_size int_max NULL_PROBABILITY =
     bindG (insert_values table_def str_max_size bin_max_size int_max NULL_PROBABILITY [])
       (\<lambda>values. returnG (values,
          ''INSERT INTO '' @ table_name @ '' VALUES('' @ join '','' (map snd values) @ '')''))"

section \<open>stream_insert_statements\<close>

text \<open>
  \<^verbatim>\<open>output_stream\<close> is called once for every accepted row. The model returns the accepted
  rows in the order of the calls, each as \<^verbatim>\<open>insert_statement\<close> returned it (the column
  values and the statement), so that the values of an emitted statement can be named;
  \<open>output_lines\<close> gives the strings the sink receives. Next to the rows the per-table loop
  returns the number of passes through its body that were started, and how it ended: the
  exception that left it, or the generator after the last pass. Rows emitted before an
  exception stay emitted.
\<close>

primrec pk_value :: "(string \<times> string) list \<Rightarrow> string list \<Rightarrow> error + string list" where
  \<comment> \<open>\<^verbatim>\<open>for _pk_col in primary_keys[_table_name]: _value.append(_col_values[_pk_col])\<close>\<close>
  "pk_value col_values [] = Inr []"
| "pk_value col_values (pk_col # rest) =
     (case map_of col_values pk_col of
        None \<Rightarrow> Inl (KeyError pk_col)
      | Some v \<Rightarrow> bindE (pk_value col_values rest) (\<lambda>vs. Inr (v # vs)))"

fun emit :: "row \<Rightarrow> row list \<times> nat \<times> (error + rng) \<Rightarrow> row list \<times> nat \<times> (error + rng)" where
  \<comment> \<open>a pass that reached \<^verbatim>\<open>output_stream(_insert_stmt + ";\n")\<close>, then the later passes\<close>
  "emit r (rows, passes, res) = (r # rows, Suc passes, res)"

fun skip :: "row list \<times> nat \<times> (error + rng) \<Rightarrow> row list \<times> nat \<times> (error + rng)" where
  \<comment> \<open>a pass left by \<^verbatim>\<open>continue\<close>, then the later passes\<close>
  "skip (rows, passes, res) = (rows, Suc passes, res)"

primrec rows_loop ::
  "string \<Rightarrow> table_def \<Rightarrow> int \<Rightarrow> int \<Rightarrow> int \<Rightarrow> rat \<Rightarrow> (string \<Rightarrow> string list option option) \<Rightarrow>
   nat list \<Rightarrow> string list set \<Rightarrow> rng \<Rightarrow> row list \<times> nat \<times> (error + rng)" where
  \<comment> \<open>\<^verbatim>\<open>for pos in range(_rows_per_table)\<close>: one pass for each element of the range.
      \<^verbatim>\<open>pos += 1\<close> rebinds the loop variable, which the next pass overwrites with the next
      element of the range\<close>
  "rows_loop table_name table_def max_string_size max_binary_array_size integer_maximum
     NULL_PROBABILITY primary_keys [] pk_set g = ([], 0, Inr g)"
| "rows_loop table_name table_def max_string_size max_binary_array_size integer_maximum
     NULL_PROBABILITY primary_keys (pos # later) pk_set g =
     (case insert_statement table_name table_def max_string_size max_binary_array_size
             integer_maximum NULL_PROBABILITY g of
        Inl e \<Rightarrow> ([], 1, Inl e)
      | Inr (r, g') \<Rightarrow>
          (case primary_keys table_name of
             None \<Rightarrow>
               emit r (rows_loop table_name table_def max_string_size max_binary_array_size
                         integer_maximum NULL_PROBABILITY primary_keys later pk_set g')
           | Some None \<Rightarrow>
               skip (rows_loop table_name table_def max_string_size max_binary_array_size
                       integer_maximum NULL_PROBABILITY primary_keys later pk_set g')
           | Some (Some pk_cols) \<Rightarrow>
               (case pk_value (fst r) pk_cols of
                  Inl e \<Rightarrow> ([], 1, Inl e)
                | Inr v \<Rightarrow>
                    if v \<in> pk_set then
                      (let pos = pos + 1
                       in skip (rows_loop table_name table_def max_string_size
                                  max_binary_array_size integer_maximum NULL_PROBABILITY
                                  primary_keys later pk_set g'))
                    else
                      emit r (rows_loop table_name table_def max_string_size
                                max_binary_array_size integer_maximum NULL_PROBABILITY
                                primary_keys later (insert v pk_set) g'))))"

definition rows_per_table :: "int option \<Rightarrow> int \<Rightarrow> int" where
  \<comment> \<open>\<^verbatim>\<open>_rows_per_table\<close>: the requested number, capped when a maximum is configured\<close>
  "rows_per_table max_rows_per_table requested =
     (case max_rows_per_table of None \<Rightarrow> requested | Some m \<Rightarrow> min m requested)"

definition table_inserts ::
  "string \<Rightarrow> table_def \<Rightarrow> int \<Rightarrow> int \<Rightarrow> int \<Rightarrow> rat \<Rightarrow> int option \<Rightarrow>
   (string \<Rightarrow> string list option option) \<Rightarrow> int \<Rightarrow> rng \<Rightarrow> row list \<times> nat \<times> (error + rng)" where
  \<comment> \<open>the body of the outer loop for one table whose requested row count was found:
      an empty \<^verbatim>\<open>_pk_set\<close>, then the loop over \<^verbatim>\<open>range(_rows_per_table)\<close>\<close>
  "table_inserts table_name table_def max_string_size max_binary_array_size integer_maximum
     NULL_PROBABILITY max_rows_per_table primary_keys requested g =
     rows_loop table_name table_def max_string_size max_binary_array_size integer_maximum
       NULL_PROBABILITY primary_keys
       [0..<nat (rows_per_table max_rows_per_table requested)] {} g"

primrec stream_insert_statements ::
  "table_defs \<Rightarrow> rat \<Rightarrow> (string \<Rightarrow> int option) \<Rightarrow> int \<Rightarrow> int \<Rightarrow> int \<Rightarrow> int option \<Rightarrow>
   (string \<Rightarrow> string list option option) \<Rightarrow> rng \<Rightarrow> (string \<times> row) list \<times> (error + rng)" where
  \<comment> \<open>the globals \<^verbatim>\<open>_table_definitions\<close> and \<^verbatim>\<open>NULL_PROBABILITY\<close> come first, then the
      parameters in the source's order (without the sink). Every emitted row carries the
      name of its table. A table without a requested row count raises KeyError\<close>
  "stream_insert_statements [] NULL_PROBABILITY number_of_rows_per_table max_string_size
     max_binary_array_size integer_maximum max_rows_per_table primary_keys g = ([], Inr g)"
| "stream_insert_statements (item # rest) NULL_PROBABILITY number_of_rows_per_table
     max_string_size max_binary_array_size integer_maximum max_rows_per_table primary_keys g =
     (let table_name = fst item; table_def = snd item in
      case number_of_rows_per_table table_name of
        None \<Rightarrow> ([], Inl (KeyError table_name))
      | Some requested \<Rightarrow>
          (case table_inserts table_name table_def max_string_size max_binary_array_size
                  integer_maximum NULL_PROBABILITY max_rows_per_table primary_keys requested g of
             (rows, passes, Inl e) \<Rightarrow> (map (Pair table_name) rows, Inl e)
           | (rows, passes, Inr g') \<Rightarrow>
               (case stream_insert_statements rest NULL_PROBABILITY number_of_rows_per_table
                       max_string_size max_binary_array_size integer_maximum
                       max_rows_per_table primary_keys g' of
                  (later, res) \<Rightarrow> (map (Pair table_name) rows @ later, res))))"

definition output_lines :: "(string \<times> row) list \<Rightarrow> string list" where
  \<comment> \<open>the arguments of the calls \<^verbatim>\<open>output_stream(_insert_stmt + ";\n")\<close>\<close>
  "output_lines emitted = map (\<lambda>(table_name, col_values, insert_stmt).
                                 insert_stmt @ [CHR '';'', CHR 0x0A]) emitted"

definition rows_of :: "string \<Rightarrow> (string \<times> row) list \<Rightarrow> row list" where
  \<comment> \<open>the rows emitted for one table\<close>
  "rows_of table_name emitted = map snd (filter (\<lambda>e. fst e = table_name) emitted)"

section \<open>Auxiliary notions for the statements below\<close>

definition null_fires :: "rat option \<Rightarrow> rng \<Rightarrow> bool" where
  \<comment> \<open>the two nested tests at the head of \<^verbatim>\<open>random_value\<close>: the probability is truthy
      and the uniform number drawn from the generator is at most the probability\<close>
  "null_fires null_probability g =
     (case null_probability of None \<Rightarrow> False
      | Some p \<Rightarrow> p \<noteq> 0 \<and> fst (uniform01 g) \<le> p)"

primrec generated_rows ::
  "string \<Rightarrow> table_def \<Rightarrow> int \<Rightarrow> int \<Rightarrow> int \<Rightarrow> rat \<Rightarrow> nat \<Rightarrow> rng \<Rightarrow> row list" where
  \<comment> \<open>the rows that \<open>n\<close> successive calls of \<^verbatim>\<open>insert_statement\<close> return, whether the loop
      emits them or not (up to the first call that raises)\<close>
  "generated_rows table_name table_def max_string_size max_binary_array_size integer_maximum
     NULL_PROBABILITY 0 g = []"
| "generated_rows table_name table_def max_string_size max_binary_array_size integer_maximum
     NULL_PROBABILITY (Suc n) g =
     (case insert_statement table_name table_def max_string_size max_binary_array_size
             integer_maximum NULL_PROBABILITY g of
        Inl e \<Rightarrow> []
      | Inr (r, g') \<Rightarrow>
          r # generated_rows table_name table_def max_string_size max_binary_array_size
                integer_maximum NULL_PROBABILITY n g')"

definition constant_source :: "nat \<Rightarrow> nat \<Rightarrow> nat" where
  \<comment> \<open>a generator whose every raw number is \<open>k\<close>\<close>
  "constant_source k i = k"

definition list_source :: "nat list \<Rightarrow> nat \<Rightarrow> nat" where
  \<comment> \<open>a generator whose first raw numbers are those of the list\<close>
  "list_source xs i = (if i < length xs then xs ! i else 0)"

definition yields :: "('a \<Rightarrow> bool) \<Rightarrow> 'a gen \<Rightarrow> bool" where
  \<comment> \<open>every value the computation can return satisfies \<open>P\<close>\<close>
  "yields P m = (\<forall>g v g'. m g = Inr (v, g') \<longrightarrow> P v)"

definition sample_catalog :: "string \<Rightarrow> string list" where
  \<comment> \<open>a parsed catalog of three rows; the third repeats the table and column of the first\<close>
  "sample_catalog =
     (\<lambda>k. [])(''TABLE_SCHEMA'' := [''dbo'', ''dbo'', ''dbo''],
               ''TABLE_NAME'' := [''T'', ''T'', ''T''],
               ''COLUMN_NAME'' := [''a'', ''b'', ''a''],
               ''DATA_TYPE'' := [''int'', ''bit'', ''varchar''],
               ''IS_NULLABLE'' := [''NO'', ''YES'', ''YES''],
               ''CHARACTER_MAXIMUM_LENGTH'' := [''NULL'', ''NULL'', ''-1''])"

definition sample_table :: table_def where
  \<comment> \<open>a table with the single column \<^verbatim>\<open>Id tinyint NOT NULL\<close>\<close>
  "sample_table = [(''Id'', \<lparr>data_type = ''tinyint'', is_nullable = False, max_length = None\<rparr>)]"

definition sample_tables :: table_defs where
  "sample_tables = [(''dbo.Keyed'', sample_table), (''dbo.Skipped'', sample_table),
                    (''dbo.Plain'', sample_table)]"

definition sample_primary_keys :: "string \<Rightarrow> string list option option" where
  \<comment> \<open>\<^verbatim>\<open>{"dbo.Keyed": ["Id"], "dbo.Skipped": null}\<close>\<close>
  "sample_primary_keys = [''dbo.Keyed'' \<mapsto> Some [''Id''], ''dbo.Skipped'' \<mapsto> None]"

definition sample_number_of_rows :: "string \<Rightarrow> int option" where
  "sample_number_of_rows = [''dbo.Keyed'' \<mapsto> 3, ''dbo.Skipped'' \<mapsto> 2, ''dbo.Plain'' \<mapsto> 2]"

definition sample_flags :: table_def where
  \<comment> \<open>a table with the single column \<^verbatim>\<open>Flag bit NOT NULL\<close>: two possible keys\<close>
  "sample_flags = [(''Flag'', \<lparr>data_type = ''bit'', is_nullable = False, max_length = None\<rparr>)]"

definition raises_only :: "(error \<Rightarrow> bool) \<Rightarrow> 'a gen \<Rightarrow> bool" where
  \<comment> \<open>every exception the computation can raise satisfies \<open>P\<close>\<close>
  "raises_only P m = (\<forall>g e. m g = Inl e \<longrightarrow> P e)"


section \<open>Facts about rendering\<close>

lemma str_nat_nonempty: "str_nat n \<noteq> []"
  by (subst str_nat.simps) simp

lemma digit_char_is_digit: "is_digit (digit_char d)"
proof -
  have "d mod 10 < 10" by simp
  then have "d mod 10 \<in> {0, 1, 2, 3, 4, 5, 6, 7, 8, 9}" by simp arith
  then show ?thesis
    unfolding is_digit_def digit_char_def by auto
qed

lemma hd_str_nat: "is_digit (hd (str_nat n))"
proof (induction n rule: str_nat.induct)
  case (1 n)
  show ?case
  proof (cases "n < 10")
    case True
    then show ?thesis by (subst str_nat.simps) (simp add: digit_char_is_digit)
  next
    case False
    with 1 show ?thesis by (subst str_nat.simps) (simp add: str_nat_nonempty)
  qed
qed

lemma str_nat_digits: "\<forall>c \<in> set (str_nat n). is_digit c"
proof (induction n rule: str_nat.induct)
  case (1 n)
  show ?case
  proof (cases "n < 10")
    case True
    then show ?thesis by (subst str_nat.simps) (simp add: digit_char_is_digit)
  next
    case False
    with 1 show ?thesis by (subst str_nat.simps) (simp add: digit_char_is_digit)
  qed
qed

lemma str_int_nonempty: "str_int i \<noteq> []"
  by (simp add: str_int_def str_nat_nonempty)

lemma hd_str_int: "hd (str_int i) = CHR ''-'' \<or> is_digit (hd (str_int i))"
  by (simp add: str_int_def hd_str_nat)

lemma str_int_nonneg_digits: "0 \<le> i \<Longrightarrow> \<forall>c \<in> set (str_int i). is_digit c"
  using str_nat_digits by (simp add: str_int_def)

lemma str_int_not_max: "0 \<le> i \<Longrightarrow> str_int i \<noteq> ''max''"
proof
  assume "0 \<le> i" and "str_int i = ''max''"
  then have "is_digit CHR ''m''"
    using str_int_nonneg_digits [of i] by simp
  then show False by (simp add: is_digit_def)
qed

lemma str_int_not_NULL: "str_int i \<noteq> ''NULL''"
proof
  assume h: "str_int i = ''NULL''"
  have "hd (str_int i) = CHR ''-'' \<or> is_digit (hd (str_int i))" by (rule hd_str_int)
  with h show False by (simp add: is_digit_def)
qed

lemma str_float_not_NULL: "str_float q \<noteq> ''NULL''"
proof
  assume h: "str_float q = ''NULL''"
  obtain s t where st: "str_float q = s @ t" and s: "s = str_int (\<lfloor>q * 100\<rfloor> div 100)"
    by (simp add: str_float_def Let_def)
  have "s \<noteq> []" using s by (simp add: str_int_nonempty)
  then have "hd (str_float q) = hd s" using st by simp
  moreover have "hd s = CHR ''-'' \<or> is_digit (hd s)" using s hd_str_int by simp
  ultimately show False using h by (auto simp: is_digit_def)
qed

lemma str_int_samples:
  "str_int 7 = ''7''" "str_int 3 = ''3''" "str_int 0 = ''0''" "str_int 9 = ''9''"
  by (simp_all add: str_int_def str_nat.simps digit_char_def)

section \<open>Facts about random_value\<close>

lemma yields_return: "P x \<Longrightarrow> yields P (returnG x)"
  by (simp add: yields_def returnG_def)

lemma yields_raise: "yields P (raiseG e)"
  by (simp add: yields_def raiseG_def)

lemma yields_bind: "(\<And>x. yields P (k x)) \<Longrightarrow> yields P (bindG m k)"
  by (auto simp: yields_def bindG_def split: sum.splits)

lemma yields_if: "yields P a \<Longrightarrow> yields P b \<Longrightarrow> yields P (if c then a else b)"
  by simp

lemma match_never_NULL:
  "yields (\<lambda>v. v \<noteq> PyStr ''NULL'' \<and> py_str v \<noteq> ''NULL'') (random_value_match dt ss bs im)"
  unfolding random_value_match_def
  apply (intro yields_if yields_bind yields_return yields_raise)
  apply (simp_all add: str_int_not_NULL str_float_not_NULL pad_string_by_apostrophes_def)
  apply (simp add: yields_def split: prod.splits)
  done

lemma raises_only_return: "raises_only P (returnG x)"
  by (simp add: raises_only_def returnG_def)

lemma raises_only_bind:
  "raises_only P m \<Longrightarrow> (\<And>x. raises_only P (k x)) \<Longrightarrow> raises_only P (bindG m k)"
  by (auto simp: raises_only_def bindG_def split: sum.splits)

lemma raises_only_if:
  "(c \<Longrightarrow> raises_only P a) \<Longrightarrow> (\<not> c \<Longrightarrow> raises_only P b) \<Longrightarrow>
   raises_only P (if c then a else b)"
  by simp

lemma raises_only_randbelow: "raises_only (\<lambda>e. e = ValueError) (randbelow n)"
  by (auto simp: raises_only_def randbelow_def split: if_splits prod.splits)

lemma raises_only_randbits: "raises_only (\<lambda>e. e = ValueError) (randbits n)"
  by (auto simp: raises_only_def randbits_def split: if_splits prod.splits)

lemma raises_only_random_chars: "raises_only (\<lambda>e. e = ValueError) (random_chars n)"
proof (induction n)
  case 0
  then show ?case by (simp add: raises_only_return)
next
  case (Suc n)
  have "raises_only (\<lambda>e. e = ValueError) (choice alphabet)"
    by (auto simp: raises_only_def choice_def alphabet_def split: prod.splits)
  with Suc show ?case
    by (simp add: raises_only_bind raises_only_return)
qed

lemma raises_only_random_date: "raises_only (\<lambda>e. e = ValueError) random_date"
  unfolding random_date_def
  by (intro raises_only_bind raises_only_return raises_only_randbelow)

lemma raises_only_random_time: "raises_only (\<lambda>e. e = ValueError) random_time"
  unfolding random_time_def
  by (intro raises_only_bind raises_only_return raises_only_randbelow)

lemma supported_match_raises:
  assumes "dt \<in> supported_types"
  shows "raises_only (\<lambda>e. e = ValueError) (random_value_match dt ss bs im)"
proof -
  have u: "raises_only (\<lambda>e. e = ValueError)
             (\<lambda>g. let (u, g') = uuid4_str g
                  in Inr (PyStr (''CONVERT(uniqueidentifier, '' @ pad_string_by_apostrophes u @ '')''), g'))"
    by (simp add: raises_only_def split: prod.splits)
  show ?thesis
    unfolding random_value_match_def
    apply (intro raises_only_if raises_only_bind raises_only_return raises_only_randbelow
             raises_only_randbits raises_only_random_chars raises_only_random_date
             raises_only_random_time u)
    using assms apply (simp add: supported_types_def)
    done
qed

lemma unsupported_match:
  "dt \<notin> supported_types \<Longrightarrow>
   random_value_match dt ss bs im g = Inl (NotImplementedError dt)"
  by (simp add: supported_types_def random_value_match_def raiseG_def)

lemma random_value_null:
  "null_fires p g \<Longrightarrow> random_value dt ss bs im p g = Inr (PyStr ''NULL'', snd (uniform01 g))"
  by (auto simp: null_fires_def random_value_def split: option.splits prod.splits)

lemma random_value_no_null:
  "\<not> null_fires p g \<Longrightarrow>
   random_value dt ss bs im p g =
   random_value_match dt ss bs im (if p = None \<or> p = Some 0 then g else snd (uniform01 g))"
  by (auto simp: null_fires_def random_value_def split: option.splits prod.splits)

lemma uniform01_le_1: "fst (uniform01 g) \<le> 1"
proof -
  have "(of_nat (r mod 2 ^ 53) :: rat) \<le> 2 ^ 53" for r :: nat
  proof -
    have "r mod 2 ^ 53 \<le> 2 ^ 53" by simp
    then have "(of_nat (r mod 2 ^ 53) :: rat) \<le> of_nat (2 ^ 53)" by (simp only: of_nat_le_iff)
    then show ?thesis by simp
  qed
  then show ?thesis
    by (simp add: uniform01_def next_raw_def split: prod.splits)
qed

lemma supported_lower: "dt \<in> supported_types \<Longrightarrow> lower dt = dt"
  by (auto simp: supported_types_def lower_def lower_char_def)

lemma sample_bit:
  "random_value ''bit'' 20 20 36000 None (constant_source 1, 0) = Inr (PyInt 1, (constant_source 1, 1))"
  by (simp add: random_value_def random_value_match_def bindG_def returnG_def randbits_def
        next_raw_def constant_source_def)

section \<open>Facts about create_statement\<close>

lemma max_length_text_max:
  "max_length_text ml = ''max'' \<longleftrightarrow> (\<exists>n. ml = Some n \<and> n < 0)"
  by (cases ml) (auto simp: max_length_text_def str_int_not_max)

lemma create_statement_columns:
  "\<exists>primary_key. create_statement table_name table_def primary_keys =
     ''CREATE TABLE '' @ table_name @ '' ('' @
     join '','' (map (\<lambda>(column, cd). ''['' @ column @ ''] '' @ data_type_def cd @ '' '' @
                                     (if is_nullable cd then [] else ''NOT NULL'')) table_def) @
     primary_key @ '')''"
proof -
  have "(\<lambda>(column, cd). column_definition column cd) =
        (\<lambda>(column, cd). ''['' @ column @ ''] '' @ data_type_def cd @ '' '' @
                         (if is_nullable cd then [] else ''NOT NULL''))"
    by (auto simp: column_definition_def fun_eq_iff)
  then show ?thesis
    by (simp add: create_statement_def Let_def)
qed

section \<open>Facts about generate_table_definitions\<close>

lemma table_defs_loop_append:
  "table_defs_loop p (xs @ ys) defs = bindE (table_defs_loop p xs defs) (table_defs_loop p ys)"
  by (induction xs arbitrary: defs) (auto simp: bindE_def split: sum.splits)

lemma generate_table_definitions_Suc:
  "generate_table_definitions (int (Suc n)) p =
   bindE (generate_table_definitions (int n) p) (\<lambda>defs.
     bindE (table_row p n) (\<lambda>(tbl, col, cd). Inr (add_column tbl col cd defs)))"
proof -
  have "nat (int (Suc n)) = Suc n" and "nat (int n) = n" by (simp_all only: nat_int)
  then have "[0..<nat (int (Suc n))] = [0..<nat (int n)] @ [n]" by simp
  then show ?thesis
    unfolding generate_table_definitions_def
    by (simp only: table_defs_loop_append) (auto simp: bindE_def split: sum.splits)
qed

lemma map_of_add_column_same:
  "map_of (add_column tbl col cd defs) tbl =
   Some (AList.update col cd (case map_of defs tbl of None \<Rightarrow> [] | Some t \<Rightarrow> t))"
  by (simp add: add_column_def update_conv')

lemma map_of_add_column_other:
  "t \<noteq> tbl \<Longrightarrow> map_of (add_column tbl col cd defs) t = map_of defs t"
  by (simp add: add_column_def update_conv')

lemma add_column_keeps:
  assumes "map_of defs t = Some cols" and "c \<in> fst ` set cols"
  shows "\<exists>cols'. map_of (add_column tbl col cd defs) t = Some cols' \<and> c \<in> fst ` set cols'"
proof (cases "t = tbl")
  case True
  with assms show ?thesis
    by (simp add: map_of_add_column_same dom_update)
next
  case False
  with assms show ?thesis by (simp add: map_of_add_column_other)
qed

lemma add_column_adds:
  "\<exists>cols'. map_of (add_column tbl col cd defs) tbl = Some cols' \<and> col \<in> fst ` set cols'"
  by (simp add: map_of_add_column_same dom_update)

lemma rows_present:
  assumes "generate_table_definitions (int n) p = Inr defs"
      and "i < n" and "table_row p i = Inr (tbl, col, cd)"
  shows "\<exists>cols. map_of defs tbl = Some cols \<and> col \<in> fst ` set cols"
  using assms
proof (induction n arbitrary: defs)
  case 0
  then show ?case by simp
next
  case (Suc n)
  from Suc.prems(1) obtain defs0 t c d where
    g: "generate_table_definitions (int n) p = Inr defs0" and
    r: "table_row p n = Inr (t, c, d)" and
    e: "defs = add_column t c d defs0"
    unfolding generate_table_definitions_Suc
    by (auto simp: bindE_def split: sum.splits)
  show ?case
  proof (cases "i = n")
    case True
    with r Suc.prems(3) have "t = tbl" "c = col" by simp_all
    then show ?thesis using e add_column_adds [of tbl col d defs0] by simp
  next
    case False
    with Suc.prems(2) have "i < n" by simp
    from Suc.IH [OF g this Suc.prems(3)] obtain cols where
      "map_of defs0 tbl = Some cols" and "col \<in> fst ` set cols" by blast
    then show ?thesis using e add_column_keeps by simp
  qed
qed

lemma sample_catalog_rows:
  "table_row sample_catalog 0 =
     Inr (''dbo.T'', ''a'', \<lparr>data_type = ''int'', is_nullable = False, max_length = None\<rparr>)"
  "table_row sample_catalog (Suc 0) =
     Inr (''dbo.T'', ''b'', \<lparr>data_type = ''bit'', is_nullable = True, max_length = None\<rparr>)"
  "table_row sample_catalog 2 =
     Inr (''dbo.T'', ''a'', \<lparr>data_type = ''varchar'', is_nullable = True, max_length = Some (- 1)\<rparr>)"
  by (simp_all add: table_row_def sample_catalog_def bindE_def index_def py_int_def
        is_space_def is_digit_def digits_value_def)

lemma sample_catalog_two:
  "generate_table_definitions 2 sample_catalog =
     Inr [(''dbo.T'',
           [(''a'', \<lparr>data_type = ''int'', is_nullable = False, max_length = None\<rparr>),
            (''b'', \<lparr>data_type = ''bit'', is_nullable = True, max_length = None\<rparr>)])]"
proof -
  have "[0..<nat 2] = [0, 1]" by (simp add: upt_rec)
  then show ?thesis
    by (simp add: generate_table_definitions_def sample_catalog_rows bindE_def add_column_def)
qed

section \<open>Facts about the loop over the rows of a table\<close>

lemma emit_proj [simp]:
  "fst (emit r x) = r # fst x"
  "fst (snd (emit r x)) = Suc (fst (snd x))"
  "snd (snd (emit r x)) = snd (snd x)"
  by (cases x; simp)+

lemma skip_proj [simp]:
  "fst (skip x) = fst x"
  "fst (snd (skip x)) = Suc (fst (snd x))"
  "snd (snd (skip x)) = snd (snd x)"
  by (cases x; simp)+

lemma rows_loop_step:
  "(\<exists>e. rows_loop tn td ss bs im np pks (pos # ps) pk_set g = ([], 1, Inl e)) \<or>
   (\<exists>r g' S. rows_loop tn td ss bs im np pks (pos # ps) pk_set g =
                  emit r (rows_loop tn td ss bs im np pks ps S g')) \<or>
   (\<exists>g' S. rows_loop tn td ss bs im np pks (pos # ps) pk_set g =
                skip (rows_loop tn td ss bs im np pks ps S g'))"
proof (cases "insert_statement tn td ss bs im np g")
  case (Inl e)
  then have "rows_loop tn td ss bs im np pks (pos # ps) pk_set g = ([], 1, Inl e)"
    by simp
  then show ?thesis by blast
next
  case (Inr rg)
  obtain r g' where rg: "rg = (r, g')" by (cases rg)
  show ?thesis
  proof (cases "pks tn")
    case None
    with Inr rg have "rows_loop tn td ss bs im np pks (pos # ps) pk_set g =
                        emit r (rows_loop tn td ss bs im np pks ps pk_set g')"
      by simp
    then show ?thesis by blast
  next
    case (Some entry)
    show ?thesis
    proof (cases entry)
      case None
      with Inr rg Some have "rows_loop tn td ss bs im np pks (pos # ps) pk_set g =
                               skip (rows_loop tn td ss bs im np pks ps pk_set g')"
        by simp
      then show ?thesis by blast
    next
      case cols: (Some cols)
      show ?thesis
      proof (cases "pk_value (fst r) cols")
        case (Inl e)
        with Inr rg Some cols
        have "rows_loop tn td ss bs im np pks (pos # ps) pk_set g = ([], 1, Inl e)"
          by simp
        then show ?thesis by blast
      next
        case v: (Inr v)
        show ?thesis
        proof (cases "v \<in> pk_set")
          case True
          with Inr rg Some cols v
          have "rows_loop tn td ss bs im np pks (pos # ps) pk_set g =
                  skip (rows_loop tn td ss bs im np pks ps pk_set g')"
            by (simp add: Let_def)
          then show ?thesis by blast
        next
          case False
          with Inr rg Some cols v
          have "rows_loop tn td ss bs im np pks (pos # ps) pk_set g =
                  emit r (rows_loop tn td ss bs im np pks ps (insert v pk_set) g')"
            by simp
          then show ?thesis by blast
        qed
      qed
    qed
  qed
qed

lemma rows_loop_passes:
  "fst (snd (rows_loop tn td ss bs im np pks ps pk_set g)) \<le> length ps \<and>
   length (fst (rows_loop tn td ss bs im np pks ps pk_set g))
     \<le> fst (snd (rows_loop tn td ss bs im np pks ps pk_set g)) \<and>
   (\<forall>g'. snd (snd (rows_loop tn td ss bs im np pks ps pk_set g)) = Inr g' \<longrightarrow>
         fst (snd (rows_loop tn td ss bs im np pks ps pk_set g)) = length ps)"
proof (induction ps arbitrary: pk_set g)
  case Nil
  then show ?case by simp
next
  case (Cons pos ps)
  from rows_loop_step [of tn td ss bs im np pks pos ps pk_set g]
  consider (raise) e where
      "rows_loop tn td ss bs im np pks (pos # ps) pk_set g = ([], 1, Inl e)"
    | (emit) r g' S where
      "rows_loop tn td ss bs im np pks (pos # ps) pk_set g =
         emit r (rows_loop tn td ss bs im np pks ps S g')"
    | (skip) g' S where
      "rows_loop tn td ss bs im np pks (pos # ps) pk_set g =
         skip (rows_loop tn td ss bs im np pks ps S g')"
    by blast
  then show ?case
  proof cases
    case (raise e)
    then show ?thesis by simp
  next
    case (emit r g' S)
    with Cons.IH [of S g'] show ?thesis by simp
  next
    case (skip g' S)
    with Cons.IH [of S g'] show ?thesis by simp
  qed
qed

lemma rows_loop_pk_distinct:
  assumes "pks tn = Some (Some cols)"
  shows "distinct (map (\<lambda>r. pk_value (fst r) cols)
                    (fst (rows_loop tn td ss bs im np pks ps pk_set g))) \<and>
         (\<forall>r \<in> set (fst (rows_loop tn td ss bs im np pks ps pk_set g)).
            \<exists>v. pk_value (fst r) cols = Inr v \<and> v \<notin> pk_set)"
  using assms
proof (induction ps arbitrary: pk_set g)
  case Nil
  then show ?case by simp
next
  case (Cons pos ps)
  show ?case
  proof (cases "insert_statement tn td ss bs im np g")
    case (Inl e)
    then show ?thesis by simp
  next
    case (Inr rg)
    obtain r g' where rg: "rg = (r, g')" by (cases rg)
    show ?thesis
    proof (cases "pk_value (fst r) cols")
      case (Inl e)
      with Inr rg Cons.prems show ?thesis by simp
    next
      case v: (Inr v)
      show ?thesis
      proof (cases "v \<in> pk_set")
        case True
        with Inr rg v Cons.prems Cons.IH [OF Cons.prems, of pk_set g'] show ?thesis
          by (simp add: Let_def)
      next
        case False
        from Cons.IH [OF Cons.prems, of "insert v pk_set" g']
        have d: "distinct (map (\<lambda>r. pk_value (fst r) cols)
                    (fst (rows_loop tn td ss bs im np pks ps (insert v pk_set) g')))"
          and n: "\<forall>r \<in> set (fst (rows_loop tn td ss bs im np pks ps (insert v pk_set) g')).
                    \<exists>w. pk_value (fst r) cols = Inr w \<and> w \<notin> insert v pk_set"
          by simp_all
        from n have "Inr v \<notin> (\<lambda>r. pk_value (fst r) cols) `
                        set (fst (rows_loop tn td ss bs im np pks ps (insert v pk_set) g'))"
          by auto
        with d n False Inr rg v Cons.prems show ?thesis
          by auto
      qed
    qed
  qed
qed

lemma rows_loop_none:
  "pks tn = Some None \<Longrightarrow> fst (rows_loop tn td ss bs im np pks ps pk_set g) = []"
  by (induction ps arbitrary: pk_set g) (auto split: sum.splits)

lemma rows_loop_no_pk:
  "pks tn = None \<Longrightarrow>
   snd (snd (rows_loop tn td ss bs im np pks ps pk_set g)) = Inr g' \<Longrightarrow>
   fst (rows_loop tn td ss bs im np pks ps pk_set g) =
     generated_rows tn td ss bs im np (length ps) g \<and>
   length (generated_rows tn td ss bs im np (length ps) g) = length ps"
  by (induction ps arbitrary: pk_set g) (auto split: sum.splits)

lemma rows_loop_no_collision:
  assumes "pks tn = Some (Some cols)"
      and "snd (snd (rows_loop tn td ss bs im np pks ps pk_set g)) = Inr g'"
      and "distinct (map (\<lambda>r. pk_value (fst r) cols)
                      (generated_rows tn td ss bs im np (length ps) g))"
      and "\<forall>r \<in> set (generated_rows tn td ss bs im np (length ps) g).
             \<forall>v. pk_value (fst r) cols = Inr v \<longrightarrow> v \<notin> pk_set"
  shows "fst (rows_loop tn td ss bs im np pks ps pk_set g) =
           generated_rows tn td ss bs im np (length ps) g \<and>
         length (generated_rows tn td ss bs im np (length ps) g) = length ps"
  using assms
proof (induction ps arbitrary: pk_set g)
  case Nil
  then show ?case by simp
next
  case (Cons pos ps)
  show ?case
  proof (cases "insert_statement tn td ss bs im np g")
    case (Inl e)
    with Cons.prems show ?thesis by simp
  next
    case (Inr rg)
    obtain r g1 where rg: "rg = (r, g1)" by (cases rg)
    show ?thesis
    proof (cases "pk_value (fst r) cols")
      case (Inl e)
      with Inr rg Cons.prems show ?thesis by simp
    next
      case v: (Inr v)
      from Cons.prems(4) Inr rg v have nv: "v \<notin> pk_set" by simp
      from Cons.prems(3) Inr rg
      have d: "distinct (map (\<lambda>r. pk_value (fst r) cols)
                      (generated_rows tn td ss bs im np (length ps) g1))"
        and f0: "Inr v \<notin> (\<lambda>r. pk_value (fst r) cols) `
                   set (generated_rows tn td ss bs im np (length ps) g1)"
        using v by simp_all
      from f0 have f: "\<forall>r \<in> set (generated_rows tn td ss bs im np (length ps) g1).
                  pk_value (fst r) cols \<noteq> Inr v"
        by (metis image_eqI)
      from Cons.prems(4) Inr rg f
      have a0: "\<forall>r \<in> set (generated_rows tn td ss bs im np (length ps) g1).
             \<forall>w. pk_value (fst r) cols = Inr w \<longrightarrow> w \<notin> pk_set"
        by simp
      from a0 f
      have a: "\<forall>r \<in> set (generated_rows tn td ss bs im np (length ps) g1).
             \<forall>w. pk_value (fst r) cols = Inr w \<longrightarrow> w \<notin> insert v pk_set"
        by auto
      from Cons.prems(2) Inr rg v nv Cons.prems(1)
      have e: "snd (snd (rows_loop tn td ss bs im np pks ps (insert v pk_set) g1)) = Inr g'"
        by simp
      from Cons.IH [OF Cons.prems(1) e d a] Inr rg v nv Cons.prems(1)
      show ?thesis by simp
    qed
  qed
qed

lemma rows_loop_no_raise:
  assumes "\<forall>g. \<exists>r g'. insert_statement tn td ss bs im np g = Inr (r, g')"
      and "pks tn = None \<or> pks tn = Some None"
  shows "\<exists>g'. snd (snd (rows_loop tn td ss bs im np pks ps pk_set g)) = Inr g'"
  using assms
proof (induction ps arbitrary: g)
  case Nil
  then show ?case by simp
next
  case (Cons pos ps)
  from Cons.prems(1) obtain r g1 where i: "insert_statement tn td ss bs im np g = Inr (r, g1)"
    by blast
  from Cons.IH [OF Cons.prems, of g1] obtain g' where
    "snd (snd (rows_loop tn td ss bs im np pks ps pk_set g1)) = Inr g'" by blast
  with i Cons.prems(2) show ?case by auto
qed


section \<open>Facts about the loop over the tables\<close>

lemma rows_of_append [simp]: "rows_of t (xs @ ys) = rows_of t xs @ rows_of t ys"
  by (simp add: rows_of_def)

lemma rows_of_Pair [simp]: "rows_of t (map (Pair tn) rows) = (if t = tn then rows else [])"
  by (induction rows) (auto simp: rows_of_def)

lemma rows_of_Nil [simp]: "rows_of t [] = []"
  by (simp add: rows_of_def)

lemma rows_of_absent: "t \<notin> fst ` set emitted \<Longrightarrow> rows_of t emitted = []"
  by (induction emitted) (auto simp: rows_of_def)

lemma stream_insert_names:
  "fst ` set (fst (stream_insert_statements tds np nrows ss bs im cap pks g)) \<subseteq> fst ` set tds"
proof (induction tds arbitrary: g)
  case Nil
  then show ?case by simp
next
  case (Cons item tds)
  show ?case
  proof (cases "nrows (fst item)")
    case None
    then show ?thesis by simp
  next
    case (Some requested)
    obtain rows passes res where
      t: "table_inserts (fst item) (snd item) ss bs im np cap pks requested g = (rows, passes, res)"
      by (cases "table_inserts (fst item) (snd item) ss bs im np cap pks requested g")
    show ?thesis
    proof (cases res)
      case (Inl e)
      with Some t show ?thesis by (auto simp: Let_def)
    next
      case (Inr g')
      obtain later res' where
        l: "stream_insert_statements tds np nrows ss bs im cap pks g' = (later, res')"
        by (cases "stream_insert_statements tds np nrows ss bs im cap pks g'")
      from Inr Some t l
      have e: "fst (stream_insert_statements (item # tds) np nrows ss bs im cap pks g) =
               map (Pair (fst item)) rows @ later"
        by (simp add: Let_def)
      have "fst ` set later \<subseteq> fst ` set tds"
        using Cons.IH [of g'] l by simp
      moreover have "fst ` set (map (Pair (fst item)) rows) \<subseteq> {fst item}"
        by auto
      ultimately show ?thesis
        unfolding e by (simp only: set_append image_Un set_simps image_insert) blast
    qed
  qed
qed

lemma stream_insert_rows_of:
  assumes "distinct (map fst tds)"
  shows "rows_of tn (fst (stream_insert_statements tds np nrows ss bs im cap pks g)) = [] \<or>
         (\<exists>td requested g0. (tn, td) \<in> set tds \<and> nrows tn = Some requested \<and>
            rows_of tn (fst (stream_insert_statements tds np nrows ss bs im cap pks g)) =
            fst (table_inserts tn td ss bs im np cap pks requested g0))"
  using assms
proof (induction tds arbitrary: g)
  case Nil
  then show ?case by simp
next
  case (Cons item tds)
  obtain t0 td0 where item: "item = (t0, td0)" by (cases item)
  from Cons.prems item have absent: "t0 \<notin> fst ` set tds" and d: "distinct (map fst tds)"
    by simp_all
  show ?case
  proof (cases "nrows t0")
    case None
    with item show ?thesis by simp
  next
    case (Some requested)
    obtain rows passes res where
      t: "table_inserts t0 td0 ss bs im np cap pks requested g = (rows, passes, res)"
      by (cases "table_inserts t0 td0 ss bs im np cap pks requested g")
    show ?thesis
    proof (cases res)
      case (Inl e)
      show ?thesis
      proof (cases "tn = t0")
        case True
        with Inl Some t item
        have "rows_of tn (fst (stream_insert_statements (item # tds) np nrows ss bs im cap pks g))
              = fst (table_inserts tn td0 ss bs im np cap pks requested g)"
          by (simp add: Let_def)
        moreover have "(tn, td0) \<in> set (item # tds)" and "nrows tn = Some requested"
          using True Some item by simp_all
        ultimately show ?thesis by blast
      next
        case False
        with Inl Some t item show ?thesis by (simp add: Let_def)
      qed
    next
      case (Inr g')
      obtain later res' where
        l: "stream_insert_statements tds np nrows ss bs im cap pks g' = (later, res')"
        by (cases "stream_insert_statements tds np nrows ss bs im cap pks g'")
      from Inr Some t item l
      have e: "fst (stream_insert_statements (item # tds) np nrows ss bs im cap pks g) =
               map (Pair t0) rows @ later"
        by (simp add: Let_def)
      show ?thesis
      proof (cases "tn = t0")
        case True
        have "fst ` set later \<subseteq> fst ` set tds"
          using stream_insert_names [of tds np nrows ss bs im cap pks g'] l by simp
        with absent True have "rows_of tn later = []"
          by (intro rows_of_absent) blast
        with e True t
        have "rows_of tn (fst (stream_insert_statements (item # tds) np nrows ss bs im cap pks g))
              = fst (table_inserts tn td0 ss bs im np cap pks requested g)"
          by simp
        moreover have "(tn, td0) \<in> set (item # tds)" and "nrows tn = Some requested"
          using True Some item by simp_all
        ultimately show ?thesis by blast
      next
        case False
        with e l have "rows_of tn (fst (stream_insert_statements (item # tds) np nrows ss bs im cap pks g))
              = rows_of tn (fst (stream_insert_statements tds np nrows ss bs im cap pks g'))"
          by simp
        with Cons.IH [OF d, of g'] show ?thesis
          by (metis list.set_intros(2))
      qed
    qed
  qed
qed



section \<open>Sample runs\<close>

lemma upt_samples:
  "[0..<2] = [0, 1]" "[0..<3] = [0, 1, 2]" "[0..<5] = [0, 1, 2, 3, 4]"
  by (simp_all add: upt_rec)

lemma sample_insert_statement:
  "insert_statement tn sample_table 20 20 36000 np (src, i) =
     Inr (([(''Id'', str_int (int (src i) mod 256))],
           ''INSERT INTO '' @ tn @ '' VALUES('' @ str_int (int (src i) mod 256) @ '')''),
          (src, Suc i))"
  by (simp add: insert_statement_def sample_table_def bindG_def returnG_def random_value_def
        random_value_match_def randbelow_def next_raw_def)

lemma sample_table_no_raise:
  "\<forall>g. \<exists>r g'. insert_statement tn sample_table 20 20 36000 np g = Inr (r, g')"
proof
  fix g :: rng
  obtain src i where "g = (src, i)" by (cases g)
  then show "\<exists>r g'. insert_statement tn sample_table 20 20 36000 np g = Inr (r, g')"
    using sample_insert_statement [of tn np src i] by blast
qed

lemma sample_keyed:
  "table_inserts ''dbo.Keyed'' sample_table 20 20 36000 (1 / 5) (Some 1000)
     sample_primary_keys 3 (list_source [7, 7, 3, 9, 9, 0, 0], 0) =
   ([([(''Id'', ''7'')], ''INSERT INTO dbo.Keyed VALUES(7)''),
     ([(''Id'', ''3'')], ''INSERT INTO dbo.Keyed VALUES(3)'')],
    3, Inr (list_source [7, 7, 3, 9, 9, 0, 0], 3))"
  by (simp add: sample_primary_keys_def table_inserts_def rows_per_table_def upt_samples
        sample_insert_statement list_source_def str_int_samples bindE_def Let_def)

lemma sample_skipped:
  "table_inserts ''dbo.Skipped'' sample_table 20 20 36000 (1 / 5) (Some 1000)
     sample_primary_keys 2 (list_source [7, 7, 3, 9, 9, 0, 0], 3) =
   ([], 2, Inr (list_source [7, 7, 3, 9, 9, 0, 0], 5))"
  by (simp add: sample_primary_keys_def table_inserts_def rows_per_table_def upt_samples
        sample_insert_statement list_source_def str_int_samples bindE_def Let_def)

lemma sample_plain:
  "table_inserts ''dbo.Plain'' sample_table 20 20 36000 (1 / 5) (Some 1000)
     sample_primary_keys 2 (list_source [7, 7, 3, 9, 9, 0, 0], 5) =
   ([([(''Id'', ''0'')], ''INSERT INTO dbo.Plain VALUES(0)''),
     ([(''Id'', ''0'')], ''INSERT INTO dbo.Plain VALUES(0)'')],
    2, Inr (list_source [7, 7, 3, 9, 9, 0, 0], 7))"
  by (simp add: sample_primary_keys_def table_inserts_def rows_per_table_def upt_samples
        sample_insert_statement list_source_def str_int_samples bindE_def Let_def)

lemma sample_run:
  "stream_insert_statements sample_tables (1 / 5) sample_number_of_rows 20 20 36000 (Some 1000)
     sample_primary_keys (list_source [7, 7, 3, 9, 9, 0, 0], 0) =
   ([(''dbo.Keyed'', [(''Id'', ''7'')], ''INSERT INTO dbo.Keyed VALUES(7)''),
     (''dbo.Keyed'', [(''Id'', ''3'')], ''INSERT INTO dbo.Keyed VALUES(3)''),
     (''dbo.Plain'', [(''Id'', ''0'')], ''INSERT INTO dbo.Plain VALUES(0)''),
     (''dbo.Plain'', [(''Id'', ''0'')], ''INSERT INTO dbo.Plain VALUES(0)'')],
    Inr (list_source [7, 7, 3, 9, 9, 0, 0], 7))"
  by (simp add: sample_tables_def sample_number_of_rows_def sample_keyed sample_skipped
        sample_plain Let_def)



lemma sample_generated:
  "generated_rows ''dbo.Keyed'' sample_table 20 20 36000 (1 / 5) 2 (list_source [7, 3], 0) =
   [([(''Id'', ''7'')], ''INSERT INTO dbo.Keyed VALUES(7)''),
    ([(''Id'', ''3'')], ''INSERT INTO dbo.Keyed VALUES(3)'')]"
  by (simp add: numeral_2_eq_2 sample_insert_statement list_source_def str_int_samples)

lemma sample_keyed_distinct:
  "table_inserts ''dbo.Keyed'' sample_table 20 20 36000 (1 / 5) (Some 1000)
     sample_primary_keys 2 (list_source [7, 3], 0) =
   ([([(''Id'', ''7'')], ''INSERT INTO dbo.Keyed VALUES(7)''),
     ([(''Id'', ''3'')], ''INSERT INTO dbo.Keyed VALUES(3)'')],
    2, Inr (list_source [7, 3], 2))"
  by (simp add: sample_primary_keys_def table_inserts_def rows_per_table_def upt_samples
        sample_insert_statement list_source_def str_int_samples bindE_def Let_def)

lemma sample_flags_insert:
  "insert_statement tn sample_flags 20 20 36000 np (src, i) =
     Inr (([(''Flag'', str_int (int (src i) mod 2))],
           ''INSERT INTO '' @ tn @ '' VALUES('' @ str_int (int (src i) mod 2) @ '')''),
          (src, Suc i))"
  by (simp add: insert_statement_def sample_flags_def bindG_def returnG_def random_value_def
        random_value_match_def randbits_def next_raw_def)




section \<open>Properties of random_value\<close>

text \<open>
  Claim C5. The null probability governs the NULL marker, in both directions. With
  \<^verbatim>\<open>None\<close> (a column that is not nullable) and with \<^verbatim>\<open>0.0\<close>, \<^verbatim>\<open>random_value\<close> never
  returns \<^verbatim>\<open>"NULL"\<close>, whatever the data type, the sizes and the generator (nor a value
  whose text is \<^verbatim>\<open>NULL\<close>); with \<^verbatim>\<open>1.0\<close> it always returns \<^verbatim>\<open>"NULL"\<close>. For every
  probability, the null draw fires exactly when the probability is not zero and the
  uniform number drawn is at most the probability. When it fires the result is
  \<^verbatim>\<open>"NULL"\<close> for every data type, the unsupported ones included: the draw comes before
  the dispatch. When it does not fire, the result is that of the type-specific
  generation, run on the generator as the draw left it, and it is never \<^verbatim>\<open>"NULL"\<close>.
\<close>

theorem random_value_null_marker:
  "(\<forall>v g'. random_value dt ss bs im None g = Inr (v, g') \<longrightarrow>
            v \<noteq> PyStr ''NULL'' \<and> py_str v \<noteq> ''NULL'') \<and>
   random_value dt ss bs im (Some 1) g = Inr (PyStr ''NULL'', snd (uniform01 g)) \<and>
   (\<forall>v g'. random_value dt ss bs im (Some 0) g = Inr (v, g') \<longrightarrow>
            v \<noteq> PyStr ''NULL'' \<and> py_str v \<noteq> ''NULL'') \<and>
   (\<forall>p. null_fires (Some p) g = (p \<noteq> 0 \<and> fst (uniform01 g) \<le> p)) \<and>
   (\<forall>p. null_fires (Some p) g \<longrightarrow>
        random_value dt ss bs im (Some p) g = Inr (PyStr ''NULL'', snd (uniform01 g))) \<and>
   (\<forall>p. \<not> null_fires (Some p) g \<longrightarrow>
        random_value dt ss bs im (Some p) g =
          random_value_match dt ss bs im (if p = 0 then g else snd (uniform01 g)) \<and>
        (\<forall>v g'. random_value dt ss bs im (Some p) g = Inr (v, g') \<longrightarrow>
                v \<noteq> PyStr ''NULL'' \<and> py_str v \<noteq> ''NULL''))"
proof (intro conjI allI impI)
  fix v g'
  assume "random_value dt ss bs im None g = Inr (v, g')"
  then have "random_value_match dt ss bs im g = Inr (v, g')"
    by (simp add: random_value_def)
  then show "v \<noteq> PyStr ''NULL''" and "py_str v \<noteq> ''NULL''"
    using match_never_NULL [of dt ss bs im] unfolding yields_def by blast+
next
  have "null_fires (Some 1) g"
    by (simp add: null_fires_def uniform01_le_1)
  then show "random_value dt ss bs im (Some 1) g = Inr (PyStr ''NULL'', snd (uniform01 g))"
    by (rule random_value_null)
next
  fix v g'
  assume "random_value dt ss bs im (Some 0) g = Inr (v, g')"
  then have "random_value_match dt ss bs im g = Inr (v, g')"
    by (simp add: random_value_def)
  then show "v \<noteq> PyStr ''NULL''" and "py_str v \<noteq> ''NULL''"
    using match_never_NULL [of dt ss bs im] unfolding yields_def by blast+
next
  fix p
  show "null_fires (Some p) g = (p \<noteq> 0 \<and> fst (uniform01 g) \<le> p)"
    by (simp add: null_fires_def)
next
  fix p
  assume "null_fires (Some p) g"
  then show "random_value dt ss bs im (Some p) g = Inr (PyStr ''NULL'', snd (uniform01 g))"
    by (rule random_value_null)
next
  fix p
  assume n: "\<not> null_fires (Some p) g"
  then show e: "random_value dt ss bs im (Some p) g =
          random_value_match dt ss bs im (if p = 0 then g else snd (uniform01 g))"
    by (simp add: random_value_no_null)
  fix v g'
  assume "random_value dt ss bs im (Some p) g = Inr (v, g')"
  then have "random_value_match dt ss bs im (if p = 0 then g else snd (uniform01 g)) =
               Inr (v, g')"
    by (simp only: e)
  then show "v \<noteq> PyStr ''NULL''" and "py_str v \<noteq> ''NULL''"
    using match_never_NULL [of dt ss bs im] unfolding yields_def by blast+
qed

text \<open>
  The statement of C5 at a \<^verbatim>\<open>bit\<close> column: without a probability, with the probability
  zero, with a draw below the probability \<^verbatim>\<open>0.2\<close> and with the draw \<^verbatim>\<open>0.5\<close> above it.
\<close>

theorem random_value_null_marker_witness:
  "random_value ''bit'' 20 20 36000 None (constant_source 1, 0) =
     Inr (PyInt 1, (constant_source 1, 1)) \<and>
   PyInt 1 \<noteq> PyStr ''NULL'' \<and> py_str (PyInt 1) \<noteq> ''NULL'' \<and>
   random_value ''bit'' 20 20 36000 (Some 0) (constant_source 1, 0) =
     Inr (PyInt 1, (constant_source 1, 1)) \<and>
   null_fires (Some (1 / 5)) (constant_source 1, 0) \<and>
   random_value ''bit'' 20 20 36000 (Some (1 / 5)) (constant_source 1, 0) =
     Inr (PyStr ''NULL'', (constant_source 1, 1)) \<and>
   \<not> null_fires (Some (1 / 5)) (constant_source (2 ^ 52), 0) \<and>
   random_value ''bit'' 20 20 36000 (Some (1 / 5)) (constant_source (2 ^ 52), 0) =
     Inr (PyInt 0, (constant_source (2 ^ 52), 2)) \<and>
   PyInt 0 \<noteq> PyStr ''NULL'' \<and> py_str (PyInt 0) \<noteq> ''NULL''"
proof -
  let ?g = "(constant_source 1, 0 :: nat)"
  let ?h = "(constant_source (2 ^ 52), 0 :: nat)"
  have a: "random_value ''bit'' 20 20 36000 None ?g = Inr (PyInt 1, (constant_source 1, 1))"
    by (rule sample_bit)
  have b: "random_value ''bit'' 20 20 36000 (Some 0) ?g = Inr (PyInt 1, (constant_source 1, 1))"
    using a by (simp add: random_value_def)
  have c: "null_fires (Some (1 / 5)) ?g"
    by (simp add: null_fires_def uniform01_def next_raw_def constant_source_def)
  have d: "snd (uniform01 ?g) = (constant_source 1, 1)"
    by (simp add: uniform01_def next_raw_def)
  have n: "\<not> null_fires (Some (1 / 5)) ?h"
    by (simp add: null_fires_def uniform01_def next_raw_def constant_source_def)
  have m: "random_value_match ''bit'' 20 20 36000 (snd (uniform01 ?h)) =
             Inr (PyInt 0, (constant_source (2 ^ 52), 2))"
    by (simp add: uniform01_def random_value_match_def bindG_def returnG_def randbits_def
          next_raw_def constant_source_def)
  note t = random_value_null_marker [of "''bit''" 20 20 36000 ?g]
  note u = random_value_null_marker [of "''bit''" 20 20 36000 ?h]
  from t a have "PyInt 1 \<noteq> PyStr ''NULL'' \<and> py_str (PyInt 1) \<noteq> ''NULL''" by blast
  moreover from t c d
  have "random_value ''bit'' 20 20 36000 (Some (1 / 5)) ?g = Inr (PyStr ''NULL'', (constant_source 1, 1))"
    by simp
  moreover from u n m
  have r: "random_value ''bit'' 20 20 36000 (Some (1 / 5)) ?h =
             Inr (PyInt 0, (constant_source (2 ^ 52), 2))"
    by simp
  moreover from u n r
  have "PyInt 0 \<noteq> PyStr ''NULL'' \<and> py_str (PyInt 0) \<noteq> ''NULL''" by blast
  ultimately show ?thesis using a b c n by simp
qed

text \<open>
  Claim C4 says that an unsupported type name raises whatever the other arguments are.
  With the null probability \<^verbatim>\<open>1.0\<close> the unsupported name \<^verbatim>\<open>geography\<close> returns
  \<^verbatim>\<open>"NULL"\<close>: the null draw returns before the dispatch is reached.
\<close>

theorem unsupported_type_counterexample:
  "''geography'' \<notin> supported_types \<and>
   random_value ''geography'' 20 20 36000 (Some 1) (constant_source 0, 0) =
     Inr (PyStr ''NULL'', (constant_source 0, 1))"
  by (simp add: supported_types_def random_value_def uniform01_def next_raw_def
        constant_source_def)

text \<open>
  Claim C4, amended. For a type name outside the enumerated set, \<^verbatim>\<open>random_value\<close> raises
  NotImplementedError (carrying the name) and produces no value, whatever the sizes and
  the integer maximum, exactly when the null draw does not fire; when it fires, the
  result is \<^verbatim>\<open>"NULL"\<close>.
\<close>

theorem unsupported_type_error:
  "dt \<notin> supported_types \<Longrightarrow>
   random_value dt ss bs im p g =
     (if null_fires p g then Inr (PyStr ''NULL'', snd (uniform01 g))
      else Inl (NotImplementedError dt))"
  by (simp add: random_value_null random_value_no_null unsupported_match)

text \<open>The amended C4 at \<^verbatim>\<open>geography\<close>, without a null probability and with a draw above it.\<close>

theorem unsupported_type_error_witness:
  "''geography'' \<notin> supported_types \<and>
   random_value ''geography'' 20 20 36000 None (constant_source 0, 0) =
     Inl (NotImplementedError ''geography'') \<and>
   random_value ''geography'' 20 20 36000 (Some (1 / 5)) (constant_source (2 ^ 52), 0) =
     Inl (NotImplementedError ''geography'')"
proof -
  have u: "''geography'' \<notin> supported_types"
    by (simp add: supported_types_def)
  have n: "\<not> null_fires None (constant_source 0, 0)"
    by (simp add: null_fires_def)
  have m: "\<not> null_fires (Some (1 / 5)) (constant_source (2 ^ 52), 0)"
    by (simp add: null_fires_def uniform01_def next_raw_def constant_source_def)
  show ?thesis
    using u unsupported_type_error [OF u, of 20 20 36000 None "(constant_source 0, 0)"]
      unsupported_type_error [OF u, of 20 20 36000 "Some (1 / 5)" "(constant_source (2 ^ 52), 0)"]
      n m
    by simp
qed

text \<open>
  Claim C6 says that any casing of a supported name behaves as the lowercase name.
  \<^verbatim>\<open>bit\<close> yields a value where \<^verbatim>\<open>BIT\<close> raises NotImplementedError.
\<close>

theorem dispatch_case_counterexample:
  "lower ''BIT'' = ''bit'' \<and>
   random_value ''bit'' 20 20 36000 None (constant_source 1, 0) =
     Inr (PyInt 1, (constant_source 1, 1)) \<and>
   random_value ''BIT'' 20 20 36000 None (constant_source 1, 0) =
     Inl (NotImplementedError ''BIT'')"
  by (simp add: lower_def lower_char_def random_value_def random_value_match_def bindG_def
        returnG_def raiseG_def randbits_def next_raw_def constant_source_def)

text \<open>
  Claim C6, amended. The dispatch is a case-sensitive exact match against the enumerated
  names, all of which are lowercase. A name of the set is dispatched: whatever it raises
  is a ValueError of a generator primitive, never the unsupported-type error. A name that
  differs from its lowercase form is not in the set and raises NotImplementedError unless
  the null draw fires.
\<close>

theorem dispatch_case_sensitive:
  "(dt \<in> supported_types \<longrightarrow>
      lower dt = dt \<and>
      (\<forall>e. random_value dt ss bs im p g = Inl e \<longrightarrow> e = ValueError)) \<and>
   (lower dt \<noteq> dt \<longrightarrow>
      dt \<notin> supported_types \<and>
      (\<not> null_fires p g \<longrightarrow>
         random_value dt ss bs im p g = Inl (NotImplementedError dt)))"
proof (intro conjI impI allI)
  assume s: "dt \<in> supported_types"
  then show "lower dt = dt" by (rule supported_lower)
  fix e
  assume r: "random_value dt ss bs im p g = Inl e"
  then have "\<not> null_fires p g"
    using random_value_null [of p g dt ss bs im] by auto
  with r have "random_value_match dt ss bs im
                 (if p = None \<or> p = Some 0 then g else snd (uniform01 g)) = Inl e"
    by (simp add: random_value_no_null)
  then show "e = ValueError"
    using supported_match_raises [OF s, of ss bs im] unfolding raises_only_def by blast
next
  assume "lower dt \<noteq> dt"
  then show u: "dt \<notin> supported_types"
    using supported_lower [of dt] by blast
  assume "\<not> null_fires p g"
  then show "random_value dt ss bs im p g = Inl (NotImplementedError dt)"
    using u by (simp add: random_value_no_null unsupported_match)
qed

text \<open>The amended C6 at \<^verbatim>\<open>binary\<close>, with a size that makes the generator raise, and at \<^verbatim>\<open>VarChar\<close>.\<close>

theorem dispatch_case_sensitive_witness:
  "''binary'' \<in> supported_types \<and> lower ''binary'' = ''binary'' \<and>
   random_value ''binary'' 20 (- 1) 36000 None (constant_source 0, 0) = Inl ValueError \<and>
   lower ''VarChar'' \<noteq> ''VarChar'' \<and> ''VarChar'' \<notin> supported_types \<and>
   \<not> null_fires None (constant_source 0, 0) \<and>
   random_value ''VarChar'' 20 20 36000 None (constant_source 0, 0) =
     Inl (NotImplementedError ''VarChar'')"
proof -
  have b: "''binary'' \<in> supported_types"
    by (simp add: supported_types_def)
  have r: "random_value ''binary'' 20 (- 1) 36000 None (constant_source 0, 0) = Inl ValueError"
    by (simp add: random_value_def random_value_match_def bindG_def randbits_def)
  have l: "lower ''VarChar'' \<noteq> ''VarChar''"
    by (simp add: lower_def lower_char_def)
  have n: "\<not> null_fires None (constant_source 0, 0)"
    by (simp add: null_fires_def)
  from dispatch_case_sensitive [of "''binary''" 20 "- 1" 36000 None "(constant_source 0, 0)"] b
  have "lower ''binary'' = ''binary''" by blast
  moreover
  from dispatch_case_sensitive [of "''VarChar''" 20 20 36000 None "(constant_source 0, 0)"] l n
  have "''VarChar'' \<notin> supported_types \<and>
        random_value ''VarChar'' 20 20 36000 None (constant_source 0, 0) =
          Inl (NotImplementedError ''VarChar'')"
    by blast
  ultimately show ?thesis using b r l n by blast
qed

section \<open>Properties of create_statement\<close>

text \<open>
  Claim C7 says that the length clause is \<^verbatim>\<open>max\<close> for the negative sentinel and the numeric
  bound otherwise. A \<^verbatim>\<open>varchar\<close> column whose \<^verbatim>\<open>max_length\<close> is \<^verbatim>\<open>None\<close> (the catalog's
  \<^verbatim>\<open>NULL\<close>) is not the sentinel and gets the clause \<^verbatim>\<open>(None)\<close>, which is no number.
\<close>

theorem length_clause_counterexample:
  "create_statement ''dbo.T''
     [(''a'', \<lparr>data_type = ''varchar'', is_nullable = True, max_length = None\<rparr>)] None =
   ''CREATE TABLE dbo.T ([a] varchar(None) )''"
  by (simp add: create_statement_def column_definition_def data_type_def_def
        max_length_text_def)

text \<open>
  Claim C7, amended. \<^verbatim>\<open>create_statement\<close> joins, for every column, the bracketed name, the
  type text and the nullability. The type text carries a length clause only for the types
  \<^verbatim>\<open>char\<close>, \<^verbatim>\<open>varchar\<close>, \<^verbatim>\<open>nchar\<close>, \<^verbatim>\<open>nvarchar\<close>, \<^verbatim>\<open>varbinary\<close> and \<^verbatim>\<open>binary\<close>; every
  other type is rendered without one. For those six the clause is \<^verbatim>\<open>(max)\<close> exactly when
  \<^verbatim>\<open>max_length\<close> is a negative number, the decimal bound when it is a number that is not
  negative, and \<^verbatim>\<open>(None)\<close> when it is absent.
\<close>

theorem length_clause:
  "(\<exists>primary_key. create_statement table_name table_def primary_keys =
     ''CREATE TABLE '' @ table_name @ '' ('' @
     join '','' (map (\<lambda>(column, cd). ''['' @ column @ ''] '' @ data_type_def cd @ '' '' @
                                     (if is_nullable cd then [] else ''NOT NULL'')) table_def) @
     primary_key @ '')'') \<and>
   (data_type cd \<notin> {''char'', ''varchar'', ''nchar'', ''nvarchar'', ''varbinary'', ''binary''} \<longrightarrow>
      data_type_def cd = (if data_type cd = ''bit'' then ''BIT'' else data_type cd)) \<and>
   (data_type cd \<in> {''char'', ''varchar'', ''nchar'', ''nvarchar'', ''varbinary'', ''binary''} \<longrightarrow>
      (data_type_def cd = data_type cd @ ''(max)'' \<longleftrightarrow> (\<exists>n. max_length cd = Some n \<and> n < 0)) \<and>
      (\<forall>n. max_length cd = Some n \<and> 0 \<le> n \<longrightarrow>
           data_type_def cd = data_type cd @ ''('' @ str_int n @ '')'') \<and>
      (max_length cd = None \<longrightarrow> data_type_def cd = data_type cd @ ''(None)''))"
proof (intro conjI impI)
  show "\<exists>primary_key. create_statement table_name table_def primary_keys =
     ''CREATE TABLE '' @ table_name @ '' ('' @
     join '','' (map (\<lambda>(column, cd). ''['' @ column @ ''] '' @ data_type_def cd @ '' '' @
                                     (if is_nullable cd then [] else ''NOT NULL'')) table_def) @
     primary_key @ '')''"
    by (rule create_statement_columns)
next
  assume "data_type cd \<notin> {''char'', ''varchar'', ''nchar'', ''nvarchar'', ''varbinary'', ''binary''}"
  then show "data_type_def cd = (if data_type cd = ''bit'' then ''BIT'' else data_type cd)"
    by (simp add: data_type_def_def)
next
  assume l: "data_type cd \<in> {''char'', ''varchar'', ''nchar'', ''nvarchar'', ''varbinary'', ''binary''}"
  then have d: "data_type_def cd = data_type cd @ ''('' @ max_length_text (max_length cd) @ '')''"
    by (auto simp: data_type_def_def)
  show "data_type_def cd = data_type cd @ ''(max)'' \<longleftrightarrow> (\<exists>n. max_length cd = Some n \<and> n < 0)"
    using max_length_text_max [of "max_length cd"] by (simp add: d)
  show "\<forall>n. max_length cd = Some n \<and> 0 \<le> n \<longrightarrow>
           data_type_def cd = data_type cd @ ''('' @ str_int n @ '')''"
    by (simp add: d max_length_text_def)
  show "data_type_def cd = data_type cd @ ''(None)''" if "max_length cd = None"
    using that by (simp add: d max_length_text_def)
qed
text \<open>The amended C7 at four columns: unbounded, bounded, without a length, not a length type.\<close>

theorem length_clause_witness:
  "data_type_def \<lparr>data_type = ''nvarchar'', is_nullable = True, max_length = Some (- 1)\<rparr> =
     ''nvarchar(max)'' \<and>
   data_type_def \<lparr>data_type = ''varchar'', is_nullable = False, max_length = Some 10\<rparr> =
     ''varchar(10)'' \<and>
   data_type_def \<lparr>data_type = ''binary'', is_nullable = False, max_length = None\<rparr> =
     ''binary(None)'' \<and>
   data_type_def \<lparr>data_type = ''int'', is_nullable = False, max_length = None\<rparr> = ''int''"
proof -
  let ?a = "\<lparr>data_type = ''nvarchar'', is_nullable = True, max_length = Some (- 1)\<rparr>"
  let ?b = "\<lparr>data_type = ''varchar'', is_nullable = False, max_length = Some 10\<rparr>"
  let ?c = "\<lparr>data_type = ''binary'', is_nullable = False, max_length = None\<rparr>"
  let ?d = "\<lparr>data_type = ''int'', is_nullable = False, max_length = None\<rparr>"
  have s: "str_int 10 = ''10''"
    by (simp add: str_int_def str_nat.simps digit_char_def)
  have "data_type_def ?a = ''nvarchar(max)''"
    using length_clause [of "''t''" "[]" None ?a] by simp
  moreover have "data_type_def ?b = ''varchar(10)''"
    using length_clause [of "''t''" "[]" None ?b] s by simp
  moreover have "data_type_def ?c = ''binary(None)''"
    using length_clause [of "''t''" "[]" None ?c] by simp
  moreover have "data_type_def ?d = ''int''"
    using length_clause [of "''t''" "[]" None ?d] by simp
  ultimately show ?thesis by simp
qed

text \<open>
  Claim C8 says that \<^verbatim>\<open>bit\<close> is rendered \<^verbatim>\<open>BIT\<close> under any catalog casing. The casing
  \<^verbatim>\<open>Bit\<close> is rendered as it stands.
\<close>

theorem bit_casing_counterexample:
  "lower ''Bit'' = ''bit'' \<and>
   create_statement ''dbo.T''
     [(''Flag'', \<lparr>data_type = ''Bit'', is_nullable = False, max_length = None\<rparr>)] None =
   ''CREATE TABLE dbo.T ([Flag] Bit NOT NULL)''"
  by (simp add: lower_def lower_char_def create_statement_def column_definition_def
        data_type_def_def)

text \<open>
  Claim C8, amended. A column whose \<^verbatim>\<open>data_type\<close> is exactly the lowercase \<^verbatim>\<open>bit\<close> is
  rendered with the type text \<^verbatim>\<open>BIT\<close>; any other casing of the name is rendered verbatim,
  in the catalog's casing.
\<close>

theorem bit_rendering:
  "(data_type cd = ''bit'' \<longrightarrow>
      data_type_def cd = ''BIT'' \<and>
      column_definition column cd =
        ''['' @ column @ ''] BIT '' @ (if is_nullable cd then [] else ''NOT NULL'')) \<and>
   (lower (data_type cd) = ''bit'' \<and> data_type cd \<noteq> ''bit'' \<longrightarrow>
      data_type_def cd = data_type cd \<and>
      column_definition column cd =
        ''['' @ column @ ''] '' @ data_type cd @ '' '' @
        (if is_nullable cd then [] else ''NOT NULL''))"
proof (intro conjI impI)
  assume b: "data_type cd = ''bit''"
  then show d: "data_type_def cd = ''BIT''"
    by (simp add: data_type_def_def)
  show "column_definition column cd =
        ''['' @ column @ ''] BIT '' @ (if is_nullable cd then [] else ''NOT NULL'')"
    by (simp add: column_definition_def d)
next
  assume a: "lower (data_type cd) = ''bit'' \<and> data_type cd \<noteq> ''bit''"
  have "data_type cd \<notin> {''char'', ''varchar'', ''nchar'', ''nvarchar'', ''varbinary'', ''binary''}"
  proof
    assume "data_type cd \<in> {''char'', ''varchar'', ''nchar'', ''nvarchar'', ''varbinary'', ''binary''}"
    then have "lower (data_type cd) = data_type cd"
      by (auto simp: lower_def lower_char_def)
    with a show False by simp
  qed
  with a show d: "data_type_def cd = data_type cd"
    by (simp add: data_type_def_def)
  show "column_definition column cd =
        ''['' @ column @ ''] '' @ data_type cd @ '' '' @
        (if is_nullable cd then [] else ''NOT NULL'')"
    by (simp add: column_definition_def d)
qed

text \<open>The amended C8 at \<^verbatim>\<open>bit\<close> and at \<^verbatim>\<open>BiT\<close>.\<close>

theorem bit_rendering_witness:
  "data_type_def \<lparr>data_type = ''bit'', is_nullable = True, max_length = None\<rparr> = ''BIT'' \<and>
   lower ''BiT'' = ''bit'' \<and> ''BiT'' \<noteq> ''bit'' \<and>
   data_type_def \<lparr>data_type = ''BiT'', is_nullable = True, max_length = None\<rparr> = ''BiT''"
proof -
  let ?a = "\<lparr>data_type = ''bit'', is_nullable = True, max_length = None\<rparr>"
  let ?b = "\<lparr>data_type = ''BiT'', is_nullable = True, max_length = None\<rparr>"
  have l: "lower ''BiT'' = ''bit''"
    by (simp add: lower_def lower_char_def)
  have "data_type_def ?a = ''BIT''"
    using bit_rendering [of ?a "''Flag''"] by simp
  moreover have "data_type_def ?b = ''BiT''"
    using bit_rendering [of ?b "''Flag''"] l by simp
  ultimately show ?thesis using l by simp
qed

section \<open>Properties of generate_table_definitions\<close>

text \<open>
  Claim C10. Let the first \<open>n\<close> catalog rows be processed without error, and let row
  \<open>n\<close> name the table and the column that an earlier row \<open>i\<close> named. Then processing row
  \<open>n\<close> raises nothing, leaves the order of the tables and the order and number of the
  table's columns as they were (the column stays where its first occurrence put it), and
  replaces the column's definition by that of row \<open>n\<close>; every other column and table is
  unchanged.
\<close>

theorem duplicate_column_overwrites:
  assumes "generate_table_definitions (int n) parsed = Inr defs"
      and "i < n"
      and "table_row parsed i = Inr (tbl, col, cd_old)"
      and "table_row parsed n = Inr (tbl, col, cd_new)"
  shows "\<exists>defs' cols cols'.
           generate_table_definitions (int (Suc n)) parsed = Inr defs' \<and>
           map fst defs' = map fst defs \<and>
           map_of defs tbl = Some cols \<and> map_of defs' tbl = Some cols' \<and>
           map fst cols' = map fst cols \<and> length cols' = length cols \<and>
           col \<in> set (map fst cols) \<and>
           map_of cols' col = Some cd_new \<and>
           (\<forall>c. c \<noteq> col \<longrightarrow> map_of cols' c = map_of cols c) \<and>
           (\<forall>t. t \<noteq> tbl \<longrightarrow> map_of defs' t = map_of defs t)"
proof -
  from rows_present [OF assms(1-3)] obtain cols where
    c: "map_of defs tbl = Some cols" and m: "col \<in> fst ` set cols" by blast
  let ?cols' = "AList.update col cd_new cols"
  let ?defs' = "add_column tbl col cd_new defs"
  have g: "generate_table_definitions (int (Suc n)) parsed = Inr ?defs'"
    using assms(1,4) unfolding generate_table_definitions_Suc by (simp add: bindE_def)
  have t: "tbl \<in> set (map fst defs)"
    using c by (metis map_of_eq_None_iff option.distinct(1) set_map)
  have k: "map fst ?defs' = map fst defs"
    using t by (simp add: add_column_def update_keys)
  have c': "map_of ?defs' tbl = Some ?cols'"
    using c by (simp add: map_of_add_column_same)
  have kc: "map fst ?cols' = map fst cols"
    using m by (simp add: update_keys)
  then have lc: "length ?cols' = length cols"
    by (metis length_map)
  have v: "map_of ?cols' col = Some cd_new"
    by (simp add: update_conv')
  have o: "\<forall>c. c \<noteq> col \<longrightarrow> map_of ?cols' c = map_of cols c"
    by (simp add: update_conv')
  have ot: "\<forall>t. t \<noteq> tbl \<longrightarrow> map_of ?defs' t = map_of defs t"
    by (simp add: map_of_add_column_other)
  from g k c c' kc lc m v o ot show ?thesis
    by (intro exI [of _ ?defs'] exI [of _ cols] exI [of _ ?cols']) simp
qed

text \<open>
  C10 on a catalog of three rows whose third row repeats table \<^verbatim>\<open>dbo.T\<close> and column
  \<^verbatim>\<open>a\<close> of the first.
\<close>

theorem duplicate_column_overwrites_witness:
  "generate_table_definitions (int 2) sample_catalog =
     Inr [(''dbo.T'',
           [(''a'', \<lparr>data_type = ''int'', is_nullable = False, max_length = None\<rparr>),
            (''b'', \<lparr>data_type = ''bit'', is_nullable = True, max_length = None\<rparr>)])] \<and>
   (0::nat) < 2 \<and>
   table_row sample_catalog 0 =
     Inr (''dbo.T'', ''a'', \<lparr>data_type = ''int'', is_nullable = False, max_length = None\<rparr>) \<and>
   table_row sample_catalog 2 =
     Inr (''dbo.T'', ''a'',
          \<lparr>data_type = ''varchar'', is_nullable = True, max_length = Some (- 1)\<rparr>) \<and>
   (\<exists>defs' cols'.
      generate_table_definitions (int (Suc 2)) sample_catalog = Inr defs' \<and>
      map fst defs' = [''dbo.T''] \<and>
      map_of defs' ''dbo.T'' = Some cols' \<and>
      map fst cols' = [''a'', ''b''] \<and> length cols' = 2 \<and>
      map_of cols' ''a'' =
        Some \<lparr>data_type = ''varchar'', is_nullable = True, max_length = Some (- 1)\<rparr> \<and>
      map_of cols' ''b'' =
        Some \<lparr>data_type = ''bit'', is_nullable = True, max_length = None\<rparr>)"
proof -
  have g: "generate_table_definitions (int 2) sample_catalog =
     Inr [(''dbo.T'',
           [(''a'', \<lparr>data_type = ''int'', is_nullable = False, max_length = None\<rparr>),
            (''b'', \<lparr>data_type = ''bit'', is_nullable = True, max_length = None\<rparr>)])]"
    using sample_catalog_two by simp
  have l: "(0::nat) < 2" by simp
  note r0 = sample_catalog_rows(1) and r2 = sample_catalog_rows(3)
  from duplicate_column_overwrites [OF g l r0 r2] obtain defs' cols cols' where
    a: "generate_table_definitions (int (Suc 2)) sample_catalog = Inr defs'"
       "map fst defs' =
          map fst [(''dbo.T'',
           [(''a'', \<lparr>data_type = ''int'', is_nullable = False, max_length = None\<rparr>),
            (''b'', \<lparr>data_type = ''bit'', is_nullable = True, max_length = None\<rparr>)])]"
       "map_of [(''dbo.T'',
           [(''a'', \<lparr>data_type = ''int'', is_nullable = False, max_length = None\<rparr>),
            (''b'', \<lparr>data_type = ''bit'', is_nullable = True, max_length = None\<rparr>)])] ''dbo.T'' =
          Some cols"
       "map_of defs' ''dbo.T'' = Some cols'"
       "map fst cols' = map fst cols" "length cols' = length cols"
       "map_of cols' ''a'' =
          Some \<lparr>data_type = ''varchar'', is_nullable = True, max_length = Some (- 1)\<rparr>"
       "\<forall>c. c \<noteq> ''a'' \<longrightarrow> map_of cols' c = map_of cols c"
    by blast
  from a(3) have c: "cols =
           [(''a'', \<lparr>data_type = ''int'', is_nullable = False, max_length = None\<rparr>),
            (''b'', \<lparr>data_type = ''bit'', is_nullable = True, max_length = None\<rparr>)]"
    by simp
  have "map_of cols' ''b'' =
          Some \<lparr>data_type = ''bit'', is_nullable = True, max_length = None\<rparr>"
    using a(8) c by simp
  with a c have "generate_table_definitions (int (Suc 2)) sample_catalog = Inr defs' \<and>
      map fst defs' = [''dbo.T''] \<and>
      map_of defs' ''dbo.T'' = Some cols' \<and>
      map fst cols' = [''a'', ''b''] \<and> length cols' = 2 \<and>
      map_of cols' ''a'' =
        Some \<lparr>data_type = ''varchar'', is_nullable = True, max_length = Some (- 1)\<rparr> \<and>
      map_of cols' ''b'' =
        Some \<lparr>data_type = ''bit'', is_nullable = True, max_length = None\<rparr>"
    by simp
  then have ex: "\<exists>defs' cols'.
      generate_table_definitions (int (Suc 2)) sample_catalog = Inr defs' \<and>
      map fst defs' = [''dbo.T''] \<and>
      map_of defs' ''dbo.T'' = Some cols' \<and>
      map fst cols' = [''a'', ''b''] \<and> length cols' = 2 \<and>
      map_of cols' ''a'' =
        Some \<lparr>data_type = ''varchar'', is_nullable = True, max_length = Some (- 1)\<rparr> \<and>
      map_of cols' ''b'' =
        Some \<lparr>data_type = ''bit'', is_nullable = True, max_length = None\<rparr>"
    by (intro exI [of _ defs'] exI [of _ cols'])
  show ?thesis
    by (intro conjI) (rule g l r0 r2 ex)+
qed

section \<open>Properties of stream_insert_statements\<close>

text \<open>
  Claim C1. Table names are the keys of a dictionary, hence distinct. For a table whose
  entry in the primary-key map is a list of columns, the primary-key tuples of the rows
  emitted for that table in a run of \<^verbatim>\<open>stream_insert_statements\<close> are pairwise distinct,
  for every generator and also when the run is cut short by an exception; and every
  emitted row has such a tuple (a row without one raises KeyError before it is emitted).
\<close>

theorem primary_key_tuples_distinct:
  assumes "distinct (map fst table_definitions)"
      and "primary_keys table_name = Some (Some pk_cols)"
  shows "distinct (map (\<lambda>r. pk_value (fst r) pk_cols)
           (rows_of table_name
              (fst (stream_insert_statements table_definitions NULL_PROBABILITY
                      number_of_rows_per_table max_string_size max_binary_array_size
                      integer_maximum max_rows_per_table primary_keys g)))) \<and>
         (\<forall>r \<in> set (rows_of table_name
              (fst (stream_insert_statements table_definitions NULL_PROBABILITY
                      number_of_rows_per_table max_string_size max_binary_array_size
                      integer_maximum max_rows_per_table primary_keys g))).
            \<exists>v. pk_value (fst r) pk_cols = Inr v)"
proof -
  let ?rows = "rows_of table_name
              (fst (stream_insert_statements table_definitions NULL_PROBABILITY
                      number_of_rows_per_table max_string_size max_binary_array_size
                      integer_maximum max_rows_per_table primary_keys g))"
  from stream_insert_rows_of [OF assms(1)]
  consider "?rows = []"
    | td requested g0 where
      "?rows = fst (table_inserts table_name td max_string_size max_binary_array_size
                      integer_maximum NULL_PROBABILITY max_rows_per_table primary_keys
                      requested g0)"
    by blast
  then show ?thesis
  proof cases
    case 1
    then show ?thesis by simp
  next
    case 2
    then show ?thesis
      using rows_loop_pk_distinct [of primary_keys table_name pk_cols, OF assms(2)]
      unfolding table_inserts_def by simp blast
  qed
qed

text \<open>
  C1 on the sample run: three rows are requested for \<^verbatim>\<open>dbo.Keyed\<close>, the generator
  repeats the key 7, and the two rows emitted have the distinct keys 7 and 3.
\<close>

theorem primary_key_tuples_distinct_witness:
  "distinct (map fst sample_tables) \<and>
   sample_primary_keys ''dbo.Keyed'' = Some (Some [''Id'']) \<and>
   rows_of ''dbo.Keyed''
     (fst (stream_insert_statements sample_tables (1 / 5) sample_number_of_rows 20 20 36000
             (Some 1000) sample_primary_keys (list_source [7, 7, 3, 9, 9, 0, 0], 0))) =
     [([(''Id'', ''7'')], ''INSERT INTO dbo.Keyed VALUES(7)''),
      ([(''Id'', ''3'')], ''INSERT INTO dbo.Keyed VALUES(3)'')] \<and>
   distinct (map (\<lambda>r. pk_value (fst r) [''Id''])
     [([(''Id'', ''7'')], ''INSERT INTO dbo.Keyed VALUES(7)''),
      ([(''Id'', ''3'')], ''INSERT INTO dbo.Keyed VALUES(3)'')])"
proof -
  have d: "distinct (map fst sample_tables)"
    by (simp add: sample_tables_def)
  have k: "sample_primary_keys ''dbo.Keyed'' = Some (Some [''Id''])"
    by (simp add: sample_primary_keys_def)
  have r: "rows_of ''dbo.Keyed''
     (fst (stream_insert_statements sample_tables (1 / 5) sample_number_of_rows 20 20 36000
             (Some 1000) sample_primary_keys (list_source [7, 7, 3, 9, 9, 0, 0], 0))) =
     [([(''Id'', ''7'')], ''INSERT INTO dbo.Keyed VALUES(7)''),
      ([(''Id'', ''3'')], ''INSERT INTO dbo.Keyed VALUES(3)'')]"
    by (simp add: sample_run rows_of_def)
  from primary_key_tuples_distinct [where table_definitions = sample_tables
         and primary_keys = sample_primary_keys and table_name = "''dbo.Keyed''"
         and pk_cols = "[''Id'']" and NULL_PROBABILITY = "1 / 5"
         and number_of_rows_per_table = sample_number_of_rows and max_string_size = 20
         and max_binary_array_size = 20 and integer_maximum = 36000
         and max_rows_per_table = "Some 1000"
         and g = "(list_source [7, 7, 3, 9, 9, 0, 0], 0)", OF d k]
  have "distinct (map (\<lambda>r. pk_value (fst r) [''Id''])
     [([(''Id'', ''7'')], ''INSERT INTO dbo.Keyed VALUES(7)''),
      ([(''Id'', ''3'')], ''INSERT INTO dbo.Keyed VALUES(3)'')])"
    unfolding r by (rule conjunct1)
  with d k r show ?thesis by (intro conjI)
qed

text \<open>
  Claim C2 says that every table gets \<open>min(maximum, requested)\<close> statements. A table
  whose primary-key entry is the absence marker gets none of the 2 requested, and a table
  whose generated keys collide gets 2 of the 3 requested: the pass of a duplicate emits
  nothing and the loop goes on with the next element of the range.
\<close>

theorem emitted_row_count_counterexample:
  "sample_primary_keys ''dbo.Skipped'' = Some None \<and>
   length (fst (table_inserts ''dbo.Skipped'' sample_table 20 20 36000 (1 / 5) (Some 1000)
                  sample_primary_keys 2 (list_source [7, 7, 3, 9, 9, 0, 0], 3))) = 0 \<and>
   min (1000 :: int) 2 = 2 \<and>
   length (fst (table_inserts ''dbo.Keyed'' sample_table 20 20 36000 (1 / 5) (Some 1000)
                  sample_primary_keys 3 (list_source [7, 7, 3, 9, 9, 0, 0], 0))) = 2 \<and>
   min (1000 :: int) 3 = 3"
proof -
  have "sample_primary_keys ''dbo.Skipped'' = Some None"
    by (simp add: sample_primary_keys_def)
  then show ?thesis
    by (simp add: sample_skipped sample_keyed)
qed

text \<open>
  Claim C2, amended. The target of a table is the requested count, capped by the maximum
  when one is configured. The number of statements emitted for a table never exceeds the
  target (or zero, for a negative target). When no exception leaves the loop, it equals
  the target for a table without an entry in the primary-key map, and for a table with a
  primary-key list whenever the primary-key tuples of the generated rows are pairwise
  distinct; it is zero for a table whose entry is the absence marker. What happens to the
  count when generated keys collide is left open.
\<close>

theorem emitted_row_count:
  assumes "table_inserts table_name table_def max_string_size max_binary_array_size
             integer_maximum NULL_PROBABILITY max_rows_per_table primary_keys requested g =
           (rows, passes, res)"
  shows "rows_per_table None requested = requested \<and>
         (\<forall>m. rows_per_table (Some m) requested = min m requested) \<and>
         int (length rows) \<le> max 0 (rows_per_table max_rows_per_table requested) \<and>
         (primary_keys table_name = Some None \<longrightarrow> length rows = 0) \<and>
         (\<forall>g'. res = Inr g' \<and> primary_keys table_name = None \<longrightarrow>
            int (length rows) = max 0 (rows_per_table max_rows_per_table requested)) \<and>
         (\<forall>g' pk_cols.
            res = Inr g' \<and> primary_keys table_name = Some (Some pk_cols) \<and>
            distinct (map (\<lambda>r. pk_value (fst r) pk_cols)
              (generated_rows table_name table_def max_string_size max_binary_array_size
                 integer_maximum NULL_PROBABILITY
                 (nat (rows_per_table max_rows_per_table requested)) g)) \<longrightarrow>
            int (length rows) = max 0 (rows_per_table max_rows_per_table requested))"
proof -
  let ?n = "nat (rows_per_table max_rows_per_table requested)"
  let ?L = "rows_loop table_name table_def max_string_size max_binary_array_size
              integer_maximum NULL_PROBABILITY primary_keys [0..<?n] {} g"
  have L: "?L = (rows, passes, res)"
    using assms by (simp add: table_inserts_def)
  have n: "int ?n = max 0 (rows_per_table max_rows_per_table requested)"
    by simp
  have b: "length rows \<le> ?n"
    using rows_loop_passes [of table_name table_def max_string_size max_binary_array_size
            integer_maximum NULL_PROBABILITY primary_keys "[0..<?n]" "{}" g] L
    by simp
  have s: "length rows = 0" if "primary_keys table_name = Some None"
    using rows_loop_none [of primary_keys table_name table_def max_string_size
            max_binary_array_size integer_maximum NULL_PROBABILITY "[0..<?n]" "{}" g, OF that] L
    by simp
  have p: "length rows = ?n" if "res = Inr g'" and "primary_keys table_name = None" for g'
    using rows_loop_no_pk [of primary_keys table_name table_def max_string_size
            max_binary_array_size integer_maximum NULL_PROBABILITY "[0..<?n]" "{}" g g'] L that
    by simp
  have k: "length rows = ?n"
    if "res = Inr g'" and "primary_keys table_name = Some (Some pk_cols)"
      and "distinct (map (\<lambda>r. pk_value (fst r) pk_cols)
              (generated_rows table_name table_def max_string_size max_binary_array_size
                 integer_maximum NULL_PROBABILITY ?n g))" for g' pk_cols
    using rows_loop_no_collision [of primary_keys table_name pk_cols table_def max_string_size
            max_binary_array_size integer_maximum NULL_PROBABILITY "[0..<?n]" "{}" g g'] L that
    by simp
  show ?thesis
    using b s p k n by (auto simp: rows_per_table_def)
qed

text \<open>
  The amended C2 on three tables: without a primary key, 5000 rows requested and a maximum
  of 1000 give exactly 1000 statements; with a primary key and the distinct keys 7 and 3,
  the 2 requested rows are emitted; with the absence marker, none.
\<close>

theorem emitted_row_count_witness:
  "sample_primary_keys ''dbo.Plain'' = None \<and>
   (\<exists>g'. snd (snd (table_inserts ''dbo.Plain'' sample_table 20 20 36000 (1 / 5) (Some 1000)
                     sample_primary_keys 5000 (constant_source 0, 0))) = Inr g') \<and>
   length (fst (table_inserts ''dbo.Plain'' sample_table 20 20 36000 (1 / 5) (Some 1000)
                  sample_primary_keys 5000 (constant_source 0, 0))) = 1000 \<and>
   sample_primary_keys ''dbo.Keyed'' = Some (Some [''Id'']) \<and>
   distinct (map (\<lambda>r. pk_value (fst r) [''Id''])
     (generated_rows ''dbo.Keyed'' sample_table 20 20 36000 (1 / 5)
        (nat (rows_per_table (Some 1000) 2)) (list_source [7, 3], 0))) \<and>
   length (fst (table_inserts ''dbo.Keyed'' sample_table 20 20 36000 (1 / 5) (Some 1000)
                  sample_primary_keys 2 (list_source [7, 3], 0))) = 2 \<and>
   sample_primary_keys ''dbo.Skipped'' = Some None \<and>
   length (fst (table_inserts ''dbo.Skipped'' sample_table 20 20 36000 (1 / 5) (Some 1000)
                  sample_primary_keys 2 (list_source [7, 7, 3, 9, 9, 0, 0], 3))) = 0"
proof -
  let ?plain = "table_inserts ''dbo.Plain'' sample_table 20 20 36000 (1 / 5) (Some 1000)
                  sample_primary_keys 5000 (constant_source 0, 0)"
  let ?keyed = "table_inserts ''dbo.Keyed'' sample_table 20 20 36000 (1 / 5) (Some 1000)
                  sample_primary_keys 2 (list_source [7, 3], 0)"
  let ?skipped = "table_inserts ''dbo.Skipped'' sample_table 20 20 36000 (1 / 5) (Some 1000)
                  sample_primary_keys 2 (list_source [7, 7, 3, 9, 9, 0, 0], 3)"
  have p: "sample_primary_keys ''dbo.Plain'' = None"
    and k: "sample_primary_keys ''dbo.Keyed'' = Some (Some [''Id''])"
    and s: "sample_primary_keys ''dbo.Skipped'' = Some None"
    by (simp_all add: sample_primary_keys_def)
  from rows_loop_no_raise [of "''dbo.Plain''" sample_table 20 20 36000 "1 / 5"
         sample_primary_keys "[0..<nat (rows_per_table (Some 1000) 5000)]" "{}"
         "(constant_source 0, 0)"] sample_table_no_raise p
  obtain g' where e: "snd (snd ?plain) = Inr g'"
    unfolding table_inserts_def by blast
  have t: "?plain = (fst ?plain, fst (snd ?plain), Inr g')"
    using e by (metis prod.collapse)
  from emitted_row_count [OF t] e p
  have a: "int (length (fst ?plain)) = max 0 (rows_per_table (Some 1000) 5000)"
    by blast
  have a': "length (fst ?plain) = 1000"
    using a by (simp add: rows_per_table_def)
  have d: "distinct (map (\<lambda>r. pk_value (fst r) [''Id''])
     (generated_rows ''dbo.Keyed'' sample_table 20 20 36000 (1 / 5)
        (nat (rows_per_table (Some 1000) 2)) (list_source [7, 3], 0)))"
    by (simp add: rows_per_table_def sample_generated bindE_def)
  from emitted_row_count [OF sample_keyed_distinct] k d
  have b: "int (length (fst ?keyed)) = max 0 (rows_per_table (Some 1000) 2)"
    by (simp add: sample_keyed_distinct)
  have b': "length (fst ?keyed) = 2"
    using b by (simp add: rows_per_table_def)
  from emitted_row_count [OF sample_skipped] s
  have c: "length (fst ?skipped) = 0"
    by (simp add: sample_skipped)
  from p e a' k d b' s c show ?thesis by blast
qed

text \<open>
  Claim C3 says that for a small domain of keys the loop can run without bound. On a table
  whose key is one \<^verbatim>\<open>bit\<close> column (two possible keys) with 5 rows requested, the loop makes
  exactly 5 passes, emits the 2 rows with new keys, drops the 3 duplicates without another
  attempt, and ends.
\<close>

theorem small_key_domain_loop_ends:
  "table_inserts ''dbo.Flags'' sample_flags 20 20 36000 (1 / 5) (Some 1000)
     [''dbo.Flags'' \<mapsto> Some [''Flag'']] 5 (list_source [0, 1, 0, 1, 1], 0) =
   ([([(''Flag'', ''0'')], ''INSERT INTO dbo.Flags VALUES(0)''),
     ([(''Flag'', ''1'')], ''INSERT INTO dbo.Flags VALUES(1)'')],
    5, Inr (list_source [0, 1, 0, 1, 1], 5))"
proof -
  have s: "str_int 0 = ''0''" "str_int 1 = ''1''"
    by (simp_all add: str_int_def str_nat.simps digit_char_def)
  show ?thesis
    by (simp add: table_inserts_def rows_per_table_def upt_samples sample_flags_insert
          list_source_def s bindE_def Let_def)
qed





end
